theory Spec2Isabelle
  imports Complex_Main "HOL-Library.AList"
begin

section \<open>Python values\<close>

text \<open>
  A Python \<open>str\<close> is a sequence of Unicode code points. Literals of the source that are
  ASCII are written \<open>ustr ''...''\<close>; the Chinese messages are given by their code points.
\<close>

type_synonym pystr = "nat list"

definition ustr :: "string \<Rightarrow> pystr" where
  "ustr s = map of_char s"

text \<open>
  What \<open>json.loads\<close> returns: \<open>None\<close>, \<open>bool\<close>, \<open>int\<close>, \<open>float\<close>, \<open>str\<close>,
  \<open>list\<close> and \<open>dict\<close>. A dict is an association list read with \<open>map_of\<close>. Of a
  float only whether it is zero is ever inspected by the client.
\<close>

datatype json =
    JNull
  | JBool bool
  | JInt int
  | JFloat real
  | JStr pystr
  | JList "json list"
  | JObj "(pystr \<times> json) list"

text \<open>Truth value testing (\<open>if x\<close>, \<open>not x\<close>, \<open>x and y\<close>).\<close>

fun truthy :: "json \<Rightarrow> bool" where
  "truthy JNull = False"
| "truthy (JBool b) = b"
| "truthy (JInt i) = (i \<noteq> 0)"
| "truthy (JFloat r) = (r \<noteq> 0)"
| "truthy (JStr s) = (s \<noteq> [])"
| "truthy (JList xs) = (xs \<noteq> [])"
| "truthy (JObj kvs) = (kvs \<noteq> [])"

text \<open>
  The exceptions that the client raises or meets. \<open>Exception v\<close> is \<open>Exception(v)\<close>;
  \<open>ExceptionF p v\<close> is \<open>Exception(f"p{v}")\<close>, the prefix \<open>p\<close> followed by \<open>str(v)\<close>.
  \<open>CancelledError\<close> derives from \<open>BaseException\<close> only, so \<open>except Exception\<close> lets
  it pass.
\<close>

datatype exc =
    AttributeError
  | TypeError
  | InvalidStateError
  | JSONDecodeError
  | TimeoutError
  | ConnectionClosed
  | OSError
  | CancelledError
  | Exception json
  | ExceptionF pystr json

fun is_Exception :: "exc \<Rightarrow> bool" where
  "is_Exception CancelledError = False"
| "is_Exception _ = True"

text \<open>\<open>d.get(k, default)\<close> on a dict.\<close>

definition dict_get :: "(pystr \<times> json) list \<Rightarrow> pystr \<Rightarrow> json \<Rightarrow> json" where
  "dict_get kvs k d = (case map_of kvs k of None \<Rightarrow> d | Some v \<Rightarrow> v)"

text \<open>\<open>x.get(k, default)\<close> on any value: only a dict has the method.\<close>

fun py_get :: "json \<Rightarrow> pystr \<Rightarrow> json \<Rightarrow> exc + json" where
  "py_get (JObj kvs) k d = Inr (dict_get kvs k d)"
| "py_get _ k d = Inl AttributeError"

definition unknown_error :: pystr where
  "unknown_error = [0x672A, 0x77E5, 0x9519, 0x8BEF]"

definition connection_closed :: pystr where
  "connection_closed = [0x8FDE, 0x63A5, 0x5DF2, 0x5173, 0x95ED]"

section \<open>The client state\<close>

text \<open>An \<open>asyncio.Future\<close>: pending, or done with a result, an exception or cancelled.\<close>

datatype py_future = Unfilled | Result json | Failed exc | Cancelled

text \<open>An \<open>asyncio.Task\<close>, as far as the client looks at it.\<close>

datatype task = Running | Finished | TaskCancelled

record pending_request =
  future :: nat
  expect_final :: bool

text \<open>
  The fields of \<open>MoltbotClient\<close>. \<open>ws\<close> holds the handle of the open socket.
  \<open>pending\<close> and \<open>event_handlers\<close> are dicts in insertion order; a handler is named
  by a number. \<open>futures\<close> is the store of the future objects, which a pending entry
  and the waiting caller share by reference (\<open>future\<close> is the address).
\<close>

record client =
  url :: pystr
  token :: "pystr option"
  password :: "pystr option"
  client_name :: pystr
  client_version :: pystr
  ws :: "nat option"
  connected :: bool
  pending :: "(pystr \<times> pending_request) list"
  event_handlers :: "(pystr \<times> nat list) list"
  recv_task :: "task option"
  closed :: bool
  connect_nonce :: json
  futures :: "nat \<Rightarrow> py_future"

text \<open>\<open>future.set_result\<close> and \<open>future.set_exception\<close> raise on a future that is done.\<close>

definition set_result :: "nat \<Rightarrow> json \<Rightarrow> client \<Rightarrow> exc option \<times> client" where
  "set_result a v c =
     (if futures c a = Unfilled then (None, c\<lparr>futures := (futures c)(a := Result v)\<rparr>)
      else (Some InvalidStateError, c))"

definition set_exception :: "nat \<Rightarrow> exc \<Rightarrow> client \<Rightarrow> exc option \<times> client" where
  "set_exception a e c =
     (if futures c a = Unfilled then (None, c\<lparr>futures := (futures c)(a := Failed e)\<rparr>)
      else (Some InvalidStateError, c))"

section \<open>Request correlation\<close>

text \<open>
  \<open>_handle_response\<close>. The result is the exception that leaves the method, if any, and
  the client as the method leaves it. \<open>req_id not in self.pending\<close> hashes the id, which
  raises for a list or a dict; the keys of \<open>pending\<close> are strings, so no other value is
  a key.
\<close>

text \<open>The tail of \<open>_handle_response\<close>, from \<open>del self.pending[req_id]\<close> on.\<close>

definition complete_request :: "json \<Rightarrow> json \<Rightarrow> pystr \<Rightarrow> pending_request \<Rightarrow> client \<Rightarrow> exc option \<times> client" where
  "complete_request response payload k p c =
     (let c1 = c\<lparr>pending := AList.delete k (pending c)\<rparr> in
      case py_get response (ustr ''ok'') JNull of
        Inl e \<Rightarrow> (Some e, c1)
      | Inr ok \<Rightarrow>
          if truthy ok then set_result (future p) payload c1
          else (case py_get response (ustr ''error'') (JObj []) of
                  Inl e \<Rightarrow> (Some e, c1)
                | Inr error \<Rightarrow>
                    (case py_get error (ustr ''message'') (JStr unknown_error) of
                       Inl e \<Rightarrow> (Some e, c1)
                     | Inr error_msg \<Rightarrow> set_exception (future p) (Exception error_msg) c1)))"

text \<open>\<open>isinstance(payload, dict)\<close> and \<open>payload.get("status") == "accepted"\<close>.\<close>

definition status_accepted :: "json \<Rightarrow> bool" where
  "status_accepted payload =
     (case payload of
        JObj kvs \<Rightarrow> dict_get kvs (ustr ''status'') JNull = JStr (ustr ''accepted'')
      | _ \<Rightarrow> False)"

definition handle_response :: "json \<Rightarrow> client \<Rightarrow> exc option \<times> client" where
  "handle_response response c =
     (case py_get response (ustr ''id'') JNull of
        Inl e \<Rightarrow> (Some e, c)
      | Inr req_id \<Rightarrow>
          if \<not> truthy req_id then (None, c)
          else (case req_id of
                  JList _ \<Rightarrow> (Some TypeError, c)
                | JObj _ \<Rightarrow> (Some TypeError, c)
                | JStr k \<Rightarrow>
                    (case map_of (pending c) k of
                       None \<Rightarrow> (None, c)
                     | Some p \<Rightarrow>
                         (case py_get response (ustr ''payload'') JNull of
                            Inl e \<Rightarrow> (Some e, c)
                          | Inr payload \<Rightarrow>
                              if expect_final p \<and> status_accepted payload then (None, c)
                              else complete_request response payload k p c))
                | _ \<Rightarrow> (None, c)))"

text \<open>
  The receive loop hands the frames to the handler one after the other; an exception
  ends the loop, so the frames behind it are not handled.
\<close>

fun handle_responses :: "json list \<Rightarrow> client \<Rightarrow> exc option \<times> client" where
  "handle_responses [] c = (None, c)"
| "handle_responses (r # rs) c =
     (case handle_response r c of
        (None, c') \<Rightarrow> handle_responses rs c'
      | (Some e, c') \<Rightarrow> (Some e, c'))"

section \<open>Connection lifecycle\<close>

text \<open>
  The loop that both \<open>_cleanup_connection\<close> and \<open>disconnect\<close> run over the pending
  requests: a future that is not done gets \<open>Exception("...")\<close> with the message
  \<open>connection_closed\<close>.
\<close>

fun fail_pending :: "(pystr \<times> pending_request) list \<Rightarrow> (nat \<Rightarrow> py_future) \<Rightarrow> (nat \<Rightarrow> py_future)" where
  "fail_pending [] fs = fs"
| "fail_pending ((req_id, p) # ps) fs =
     fail_pending ps
       (if fs (future p) = Unfilled
        then fs(future p := Failed (Exception (JStr connection_closed)))
        else fs)"

text \<open>
  \<open>_cleanup_connection\<close>. Cancelling the receive task and closing the socket leave no
  trace in the fields: both end up \<open>None\<close>, and an exception of \<open>close\<close> is swallowed.
\<close>

definition cleanup_connection :: "client \<Rightarrow> client" where
  "cleanup_connection c =
     c\<lparr>connected := False, recv_task := None, ws := None,
       futures := fail_pending (pending c) (futures c), pending := []\<rparr>"

text \<open>\<open>task.cancel()\<close> followed by awaiting the task.\<close>

fun cancel :: "task \<Rightarrow> task" where
  "cancel Running = TaskCancelled"
| "cancel t = t"

text \<open>
  \<open>disconnect\<close>. The field \<open>_recv_task\<close> keeps the cancelled task. \<open>ws.close()\<close> is
  taken to return, as the library documents it.
\<close>

definition disconnect :: "client \<Rightarrow> client" where
  "disconnect c =
     c\<lparr>closed := True, connected := False, recv_task := map_option cancel (recv_task c),
       ws := None, futures := fail_pending (pending c) (futures c), pending := []\<rparr>"

text \<open>
  What the network does during one call of \<open>connect\<close>: whether \<open>websockets.connect\<close>
  raises, the socket it returns, the id that \<open>uuid.uuid4()\<close> draws, and the outcome of
  the two \<open>recv\<close> calls and of \<open>send\<close>. A received text is given by what \<open>json.loads\<close>
  makes of it (\<open>None\<close> when it raises \<open>JSONDecodeError\<close>); a \<open>recv\<close> that runs into
  its time limit raises \<open>TimeoutError\<close>.
\<close>

datatype recv = RecvRaises exc | RecvText "json option"

record handshake_env =
  connect_raises :: "exc option"
  socket :: nat
  uuid4 :: pystr
  first_recv :: recv
  send_raises :: "exc option"
  second_recv :: recv

text \<open>
  \<open>_send_connect\<close>, in three steps. \<open>Inr\<close> is the value returned (\<open>JNull\<close> for \<open>None\<close>),
  \<open>Inl\<close> an exception that \<open>except Exception\<close> does not catch.
\<close>

definition caught :: "exc \<Rightarrow> exc + json" where
  "caught e = (if is_Exception e then Inr JNull else Inl e)"

text \<open>The answer to the \<open>connect\<close> request.\<close>

definition read_hello :: "pystr \<Rightarrow> json \<Rightarrow> exc + json" where
  "read_hello req_id response =
     (case response of
        JObj kvs \<Rightarrow>
          if dict_get kvs (ustr ''type'') JNull = JStr (ustr ''res'') \<and>
             dict_get kvs (ustr ''id'') JNull = JStr req_id
          then
            if truthy (dict_get kvs (ustr ''ok'') JNull) then Inr (dict_get kvs (ustr ''payload'') JNull)
            else (case py_get (dict_get kvs (ustr ''error'') (JObj [])) (ustr ''message'') (JStr unknown_error) of
                    Inl e \<Rightarrow> caught e
                  | Inr error_msg \<Rightarrow> Inr JNull)
          else Inr JNull
      | _ \<Rightarrow> caught AttributeError)"

text \<open>Sending the request and waiting for the answer.\<close>

definition send_and_wait :: "handshake_env \<Rightarrow> exc + json" where
  "send_and_wait env =
     (case send_raises env of
        Some e \<Rightarrow> caught e
      | None \<Rightarrow>
          (case second_recv env of
             RecvRaises e \<Rightarrow> caught e
           | RecvText None \<Rightarrow> caught JSONDecodeError
           | RecvText (Some response) \<Rightarrow> read_hello (uuid4 env) response))"

text \<open>The wait for a \<open>connect.challenge\<close> event comes first.\<close>

definition send_connect :: "handshake_env \<Rightarrow> client \<Rightarrow> exc + json" where
  "send_connect env c =
     (case first_recv env of
        RecvRaises e \<Rightarrow> if e = TimeoutError then send_and_wait env else caught e
      | RecvText None \<Rightarrow> caught JSONDecodeError
      | RecvText (Some first_data) \<Rightarrow>
          (case first_data of
             JObj kvs \<Rightarrow>
               if dict_get kvs (ustr ''type'') JNull = JStr (ustr ''event'') \<and>
                  dict_get kvs (ustr ''event'') JNull = JStr (ustr ''connect.challenge'')
               then (case py_get (dict_get kvs (ustr ''payload'') (JObj [])) (ustr ''nonce'') JNull of
                       Inl e \<Rightarrow> caught e
                     | Inr nonce \<Rightarrow> send_and_wait env)
               else send_and_wait env
           | _ \<Rightarrow> caught AttributeError))"

text \<open>
  \<open>connect\<close>. \<open>Inr b\<close> is the boolean returned; \<open>Inl\<close> an exception that leaves the
  method. \<open>hello.get('protocol')\<close> of the log line raises when \<open>hello\<close> is no dict.
\<close>

definition connect :: "handshake_env \<Rightarrow> client \<Rightarrow> (exc + bool) \<times> client" where
  "connect env c =
     (if closed c then (Inr False, c)
      else
        let c1 = cleanup_connection c in
        case connect_raises env of
          Some e \<Rightarrow> if is_Exception e then (Inr False, cleanup_connection c1) else (Inl e, c1)
        | None \<Rightarrow>
            let c2 = c1\<lparr>ws := Some (socket env)\<rparr> in
            (case send_connect env c2 of
               Inl e \<Rightarrow> (Inl e, c2)
             | Inr hello \<Rightarrow>
                 if truthy hello then
                   let c3 = c2\<lparr>connected := True\<rparr> in
                   (case py_get hello (ustr ''protocol'') JNull of
                      Inl e \<Rightarrow> if is_Exception e then (Inr False, cleanup_connection c3) else (Inl e, c3)
                    | Inr protocol \<Rightarrow> (Inr True, c3\<lparr>recv_task := Some Running\<rparr>))
                 else (Inr False, cleanup_connection c2)))"

text \<open>
  \<open>_reconnect\<close>. The loop has no bound of its own, so it runs on a script of what
  happens in each round: whether \<open>disconnect\<close> is called during the sleep, and the
  network's behaviour in the attempt. The result lists the arguments of
  \<open>asyncio.sleep\<close> in order, and says how the procedure ended; \<open>Sleeping\<close> is a loop
  that the script has not seen the end of.
\<close>

datatype ending = Returned | Raised exc | Sleeping

fun reconnect_loop :: "(bool \<times> handshake_env) list \<Rightarrow> int \<Rightarrow> client \<Rightarrow> int list \<times> ending \<times> client" where
  "reconnect_loop [] backoff c =
     (if \<not> closed c \<and> \<not> connected c then ([], Sleeping, c) else ([], Returned, c))"
| "reconnect_loop ((shutdown, env) # rest) backoff c =
     (if \<not> closed c \<and> \<not> connected c then
        let c1 = (if shutdown then disconnect c else c) in
        if closed c1 then ([backoff], Returned, c1)
        else (case connect env c1 of
                (Inl e, c2) \<Rightarrow> ([backoff], Raised e, c2)
              | (Inr True, c2) \<Rightarrow> ([backoff], Returned, c2)
              | (Inr False, c2) \<Rightarrow>
                  (case reconnect_loop rest (min (backoff * 2) 30) c2 of
                     (waits, r) \<Rightarrow> (backoff # waits, r)))
      else ([], Returned, c))"

definition reconnect :: "(bool \<times> handshake_env) list \<Rightarrow> client \<Rightarrow> int list \<times> ending \<times> client" where
  "reconnect script c = (if closed c then ([], Returned, c) else reconnect_loop script 1 c)"

section \<open>Event dispatch\<close>

text \<open>
  A handler is a callable that is awaited: it gets its arguments, the client and the
  state of whatever else it works on, and returns or raises. The client it hands back
  is the client as it is when the await ends, so with what the handler did to it and
  with what other tasks did to it in the meantime. \<open>hs\<close> maps the number of a handler
  to what it does.
\<close>

type_synonym 'w handler = "json list \<Rightarrow> client \<Rightarrow> 'w \<Rightarrow> exc option \<times> client \<times> 'w"

text \<open>What a dispatch does besides changing state, in order.\<close>

datatype effect = Invoked nat "json list" | Logged exc | Spawned_send_connect

text \<open>The list of handlers under a name, empty when the name is no key.\<close>

definition registered :: "(pystr \<times> nat list) list \<Rightarrow> pystr \<Rightarrow> nat list" where
  "registered reg name = (case map_of reg name of None \<Rightarrow> [] | Some handlers \<Rightarrow> handlers)"

text \<open>
  \<open>for handler in handlers: try: await handler(...) except Exception: logger.error(...)\<close>

  \<open>handlers\<close> is the list object of the registry, and the lists of the registry are
  changed in place (\<open>on_event\<close> appends, the \<open>finally\<close> block of \<open>chat_send\<close> removes).
  So the loop is Python's loop over a list that may change under it: it keeps an
  index \<open>i\<close>, and each round takes item \<open>i\<close> of the list as it is then, until \<open>i\<close>
  is no index of the list any more. A handler that registers a handler in every round
  keeps the loop going for ever; then there is no result (\<open>None\<close>). \<open>effects\<close> is what
  has been done so far.
\<close>

partial_function (option) run_handlers ::
  "(nat \<Rightarrow> 'w handler) \<Rightarrow> pystr \<Rightarrow> json list \<Rightarrow> nat \<Rightarrow> effect list \<Rightarrow> client \<Rightarrow> 'w
     \<Rightarrow> (exc option \<times> effect list \<times> client \<times> 'w) option" where
  "run_handlers hs name args i effects c w =
     (let handlers = registered (event_handlers c) name in
      if i < length handlers then
        (case hs (handlers ! i) args c w of
           (None, c1, w1) \<Rightarrow>
             run_handlers hs name args (Suc i) (effects @ [Invoked (handlers ! i) args]) c1 w1
         | (Some e, c1, w1) \<Rightarrow>
             if is_Exception e
             then run_handlers hs name args (Suc i) (effects @ [Invoked (handlers ! i) args, Logged e]) c1 w1
             else Some (Some e, effects @ [Invoked (handlers ! i) args], c1, w1))
      else Some (None, effects, c, w))"

text \<open>
  \<open>_handle_event\<close>. \<open>self.event_handlers.get(event_name, [])\<close> hashes the name, which
  raises for a list or a dict; the keys are strings, so under any other name that is
  no string there is no handler.
\<close>

definition handle_event :: "(nat \<Rightarrow> 'w handler) \<Rightarrow> json \<Rightarrow> client \<Rightarrow> 'w \<Rightarrow> (exc option \<times> effect list \<times> client \<times> 'w) option" where
  "handle_event hs event c w =
     (case event of
        JObj kvs \<Rightarrow>
          let event_name = dict_get kvs (ustr ''event'') JNull;
              payload = dict_get kvs (ustr ''payload'') JNull in
          if event_name = JStr (ustr ''connect.challenge'') then
            (if truthy payload then
               (case py_get payload (ustr ''nonce'') JNull of
                  Inl e \<Rightarrow> Some (Some e, [], c, w)
                | Inr nonce \<Rightarrow>
                    if truthy nonce then Some (None, [Spawned_send_connect], c\<lparr>connect_nonce := nonce\<rparr>, w)
                    else Some (None, [], c, w))
             else Some (None, [], c, w))
          else if event_name = JStr (ustr ''tick'') then Some (None, [], c, w)
          else
            (case event_name of
               JList xs \<Rightarrow> Some (Some TypeError, [], c, w)
             | JObj m \<Rightarrow> Some (Some TypeError, [], c, w)
             | JStr name \<Rightarrow>
                 (case run_handlers hs name [payload] 0 [] c w of
                    None \<Rightarrow> None
                  | Some (Some e, effects, c1, w1) \<Rightarrow> Some (Some e, effects, c1, w1)
                  | Some (None, effects, c1, w1) \<Rightarrow>
                      run_handlers hs (ustr ''*'') [event_name, payload] 0 effects c1 w1)
             | _ \<Rightarrow> run_handlers hs (ustr ''*'') [event_name, payload] 0 [] c w)
      | _ \<Rightarrow> Some (Some AttributeError, [], c, w))"

text \<open>\<open>on_event\<close>.\<close>

definition on_event :: "pystr \<Rightarrow> nat \<Rightarrow> client \<Rightarrow> client" where
  "on_event event_name handler c =
     c\<lparr>event_handlers :=
         AList.update event_name (registered (event_handlers c) event_name @ [handler]) (event_handlers c)\<rparr>"

section \<open>Requests\<close>

definition not_connected :: pystr where
  "not_connected = [0x672A, 0x8FDE, 0x63A5, 0x5230] @ ustr '' Moltbot''"

definition request_timed_out :: pystr where
  "request_timed_out = [0x8BF7, 0x6C42, 0x8D85, 0x65F6] @ ustr '': ''"

text \<open>
  What happens around one call of \<open>request\<close>: the id drawn, the address of the future
  created, whether \<open>send\<close> raises, and what the other tasks (the receive loop among
  them) do to the client while the call waits for its future.
\<close>

record request_env =
  request_id :: pystr
  new_future :: nat
  req_send_raises :: "exc option"
  while_waiting :: "client \<Rightarrow> client"

text \<open>\<open>if req_id in self.pending: del self.pending[req_id]\<close>\<close>

definition forget :: "pystr \<Rightarrow> client \<Rightarrow> client" where
  "forget req_id c = c\<lparr>pending := AList.delete req_id (pending c)\<rparr>"

text \<open>
  \<open>request\<close>. The parameters go into the frame that is written to the socket and
  nowhere else. The time limit shows in the future: a wait that ends with the future
  not done has run out of time, and \<open>wait_for\<close> cancels the future.
\<close>

definition request :: "request_env \<Rightarrow> pystr \<Rightarrow> bool \<Rightarrow> client \<Rightarrow> (exc + json) \<times> client" where
  "request env method_name expect_final_arg c =
     (if ws c = None then (Inl (Exception (JStr not_connected)), c)
      else
        let req_id = request_id env;
            c1 = c\<lparr>futures := (futures c)(new_future env := Unfilled),
                   pending := AList.update req_id
                     \<lparr>future = new_future env, expect_final = expect_final_arg\<rparr> (pending c)\<rparr>;
            timed_out = Inl (ExceptionF request_timed_out (JStr method_name)) in
        case req_send_raises env of
          Some e \<Rightarrow>
            if e = TimeoutError then (timed_out, forget req_id c1)
            else if is_Exception e then (Inl e, forget req_id c1)
            else (Inl e, c1)
        | None \<Rightarrow>
            let c2 = while_waiting env c1 in
            (case futures c2 (new_future env) of
               Result v \<Rightarrow> (Inr v, c2)
             | Failed e \<Rightarrow>
                 if e = TimeoutError then (timed_out, forget req_id c2)
                 else if is_Exception e then (Inl e, forget req_id c2)
                 else (Inl e, c2)
             | Cancelled \<Rightarrow> (Inl CancelledError, c2)
             | Unfilled \<Rightarrow>
                 (timed_out, forget req_id (c2\<lparr>futures := (futures c2)(new_future env := Cancelled)\<rparr>))))"

section \<open>Chat streaming\<close>

text \<open>\<open>str.isspace\<close> of one code point, and \<open>str.strip()\<close>.\<close>

definition is_space :: "nat \<Rightarrow> bool" where
  "is_space ch \<longleftrightarrow>
     (9 \<le> ch \<and> ch \<le> 13) \<or> (28 \<le> ch \<and> ch \<le> 32) \<or> ch = 133 \<or> ch = 160 \<or> ch = 5760 \<or>
     (8192 \<le> ch \<and> ch \<le> 8202) \<or> ch = 8232 \<or> ch = 8233 \<or> ch = 8239 \<or> ch = 8287 \<or> ch = 12288"

definition strip :: "pystr \<Rightarrow> pystr" where
  "strip s = rev (dropWhile is_space (rev (dropWhile is_space s)))"

text \<open>
  The variables that \<open>handle_chat_event\<close> shares with its call of \<open>chat_send\<close>.
  \<open>delivered\<close> lists the arguments that \<open>on_delta\<close> was called with.
\<close>

record chat_state =
  response_text :: json
  response_complete :: bool
  response_error :: "exc option"
  delivered :: "json list"

definition request_aborted :: pystr where
  "request_aborted = [0x8BF7, 0x6C42, 0x88AB, 0x4E2D, 0x6B62]"

text \<open>\<open>for item in content\<close>: what iterating over a value yields.\<close>

fun py_iter :: "json \<Rightarrow> exc + json list" where
  "py_iter (JList xs) = Inr xs"
| "py_iter (JStr s) = Inr (map (\<lambda>ch. JStr [ch]) s)"
| "py_iter (JObj kvs) = Inr (map (\<lambda>kv. JStr (fst kv)) kvs)"
| "py_iter v = Inl TypeError"

text \<open>\<open>x[:50]\<close> works on a string or a list, \<open>len(x)\<close> on a dict as well.\<close>

fun can_slice :: "json \<Rightarrow> bool" where
  "can_slice (JStr s) = True"
| "can_slice (JList xs) = True"
| "can_slice v = False"

fun has_len :: "json \<Rightarrow> bool" where
  "has_len (JStr s) = True"
| "has_len (JList xs) = True"
| "has_len (JObj kvs) = True"
| "has_len v = False"

text \<open>
  The loop over the content items of a \<open>delta\<close> event. \<open>on_delta\<close> is the callback, if
  there is one, as the exception that it raises on an argument.
\<close>

fun delta_items :: "(json \<Rightarrow> exc option) option \<Rightarrow> json list \<Rightarrow> chat_state \<Rightarrow> exc option \<times> chat_state" where
  "delta_items on_delta [] st = (None, st)"
| "delta_items on_delta (item # items) st =
     (case py_get item (ustr ''type'') JNull of
        Inl e \<Rightarrow> (Some e, st)
      | Inr ty \<Rightarrow>
          if ty = JStr (ustr ''text'') then
            (case py_get item (ustr ''text'') (JStr []) of
               Inl e \<Rightarrow> (Some e, st)
             | Inr delta_text \<Rightarrow>
                 let st1 = st\<lparr>response_text := delta_text\<rparr> in
                 if \<not> can_slice delta_text then (Some TypeError, st1)
                 else
                   (case on_delta of
                      Some callback \<Rightarrow>
                        if truthy delta_text then
                          let st2 = st1\<lparr>delivered := delivered st1 @ [delta_text]\<rparr> in
                          (case callback delta_text of
                             None \<Rightarrow> delta_items on_delta items st2
                           | Some e \<Rightarrow>
                               if is_Exception e then delta_items on_delta items st2
                               else (Some e, st2))
                        else delta_items on_delta items st1
                    | None \<Rightarrow> delta_items on_delta items st1))
          else delta_items on_delta items st)"

text \<open>The loop over the content items of a \<open>final\<close> event.\<close>

fun final_items :: "json list \<Rightarrow> chat_state \<Rightarrow> exc option \<times> chat_state" where
  "final_items [] st = (None, st)"
| "final_items (item # items) st =
     (case py_get item (ustr ''type'') JNull of
        Inl e \<Rightarrow> (Some e, st)
      | Inr ty \<Rightarrow>
          if ty = JStr (ustr ''text'') then
            (case py_get item (ustr ''text'') (JStr []) of
               Inl e \<Rightarrow> (Some e, st)
             | Inr text \<Rightarrow> final_items items (st\<lparr>response_text := text\<rparr>))
          else final_items items st)"

text \<open>\<open>content = msg.get("content", [])\<close>, then the loop.\<close>

definition message_content :: "json \<Rightarrow> exc + json list" where
  "message_content msg =
     (case py_get msg (ustr ''content'') (JList []) of
        Inl e \<Rightarrow> Inl e
      | Inr content \<Rightarrow> py_iter content)"

text \<open>\<open>handle_chat_event\<close>, the handler that \<open>chat_send\<close> defines.\<close>

definition handle_chat_event :: "pystr \<Rightarrow> (json \<Rightarrow> exc option) option \<Rightarrow> json \<Rightarrow> chat_state \<Rightarrow> exc option \<times> chat_state" where
  "handle_chat_event session_key on_delta payload st =
     (case payload of
        JObj kvs \<Rightarrow>
          if dict_get kvs (ustr ''sessionKey'') JNull \<noteq> JStr session_key then (None, st)
          else
            let state = dict_get kvs (ustr ''state'') JNull;
                msg = dict_get kvs (ustr ''message'') JNull in
            if state = JStr (ustr ''delta'') \<and> truthy msg then
              (case message_content msg of
                 Inl e \<Rightarrow> (Some e, st)
               | Inr items \<Rightarrow> delta_items on_delta items st)
            else if state = JStr (ustr ''final'') then
              (case (if truthy msg
                     then (case message_content msg of
                             Inl e \<Rightarrow> (Some e, st)
                           | Inr items \<Rightarrow> final_items items st)
                     else (None, st)) of
                 (Some e, st1) \<Rightarrow> (Some e, st1)
               | (None, st1) \<Rightarrow>
                   if has_len (response_text st1) then (None, st1\<lparr>response_complete := True\<rparr>)
                   else (Some TypeError, st1))
            else if state = JStr (ustr ''error'') then
              (None, st\<lparr>response_error := Some (Exception (dict_get kvs (ustr ''errorMessage'') (JStr unknown_error))),
                        response_complete := True\<rparr>)
            else if state = JStr (ustr ''aborted'') then
              (None, st\<lparr>response_error := Some (Exception (JStr request_aborted)),
                        response_complete := True\<rparr>)
            else (None, st)
      | _ \<Rightarrow> (Some AttributeError, st))"

text \<open>
  The events that the dispatcher hands to the handler, one after the other. The
  dispatcher logs an \<open>Exception\<close> and goes on; anything else ends the receive loop.
\<close>

fun chat_events :: "pystr \<Rightarrow> (json \<Rightarrow> exc option) option \<Rightarrow> json list \<Rightarrow> chat_state \<Rightarrow> chat_state" where
  "chat_events session_key on_delta [] st = st"
| "chat_events session_key on_delta (payload # payloads) st =
     (case handle_chat_event session_key on_delta payload st of
        (None, st1) \<Rightarrow> chat_events session_key on_delta payloads st1
      | (Some e, st1) \<Rightarrow>
          if is_Exception e then chat_events session_key on_delta payloads st1 else st1)"

definition chat_send_failed :: pystr where
  "chat_send_failed = ustr ''chat.send '' @ [0x5931, 0x8D25] @ ustr '': ''"

text \<open>
  What happens around one call of \<open>chat_send\<close>: the number that names its handler, the
  surroundings of its \<open>request\<close>, the \<open>chat\<close> payloads that reach the handler before
  the call goes on, what the other tasks do to the client while the call waits for
  \<open>response_complete\<close>, and an exception thrown into that wait (a cancellation).
\<close>

record chat_env =
  handler_id :: nat
  chat_request :: request_env
  chat_payloads :: "json list"
  while_streaming :: "client \<Rightarrow> client"
  wait_raises :: "exc option"

definition initial_chat_state :: chat_state where
  "initial_chat_state =
     \<lparr>response_text = JStr [], response_complete = False, response_error = None, delivered = []\<rparr>"

text \<open>
  The last lines of the \<open>try\<close> block: \<open>if response_error: raise response_error\<close> and
  \<open>return response_text.strip() if response_text else None\<close>.
\<close>

definition chat_result :: "chat_state \<Rightarrow> exc + json" where
  "chat_result st =
     (case response_error st of
        Some e \<Rightarrow> Inl e
      | None \<Rightarrow>
          if truthy (response_text st) then
            (case response_text st of
               JStr s \<Rightarrow> Inr (JStr (strip s))
             | _ \<Rightarrow> Inl AttributeError)
          else Inr JNull)"

text \<open>The wait for \<open>response_complete\<close> and what follows it in the \<open>try\<close> block.\<close>

definition await_final :: "chat_env \<Rightarrow> pystr \<Rightarrow> (json \<Rightarrow> exc option) option \<Rightarrow> client \<Rightarrow> (exc + json) \<times> client" where
  "await_final env session_key on_delta c =
     (let c1 = while_streaming env c;
          st = chat_events session_key on_delta (chat_payloads env) initial_chat_state in
      case wait_raises env of
        Some e \<Rightarrow> (Inl e, c1)
      | None \<Rightarrow>
          if response_complete st then (chat_result st, c1)
          else (Inl TimeoutError, c1))"

text \<open>The \<open>try\<close> block of \<open>chat_send\<close>.\<close>

definition chat_try :: "chat_env \<Rightarrow> pystr \<Rightarrow> (json \<Rightarrow> exc option) option \<Rightarrow> client \<Rightarrow> (exc + json) \<times> client" where
  "chat_try env session_key on_delta c =
     (case request (chat_request env) (ustr ''chat.send'') False c of
        (Inl e, c1) \<Rightarrow> (Inl e, c1)
      | (Inr result, c1) \<Rightarrow>
          (case result of
             JObj kvs \<Rightarrow>
               if dict_get kvs (ustr ''status'') JNull = JStr (ustr ''error'')
               then (Inl (ExceptionF chat_send_failed (dict_get kvs (ustr ''summary'') (JStr unknown_error))), c1)
               else await_final env session_key on_delta c1
           | _ \<Rightarrow> await_final env session_key on_delta c1))"

text \<open>The \<open>finally\<close> block: \<open>list.remove\<close> takes out the first occurrence, if any.\<close>

definition remove_chat_handler :: "nat \<Rightarrow> client \<Rightarrow> client" where
  "remove_chat_handler handler c =
     (case map_of (event_handlers c) (ustr ''chat'') of
        None \<Rightarrow> c
      | Some handlers \<Rightarrow>
          c\<lparr>event_handlers :=
              AList.update (ustr ''chat'') (remove1 handler handlers) (event_handlers c)\<rparr>)"

text \<open>\<open>chat_send\<close>: register the handler, run the \<open>try\<close> block, then the \<open>finally\<close> block.\<close>

definition chat_send :: "chat_env \<Rightarrow> pystr \<Rightarrow> (json \<Rightarrow> exc option) option \<Rightarrow> client \<Rightarrow> (exc + json) \<times> client" where
  "chat_send env session_key on_delta c =
     (case chat_try env session_key on_delta (on_event (ustr ''chat'') (handler_id env) c) of
        (r, c1) \<Rightarrow> (r, remove_chat_handler (handler_id env) c1))"

section \<open>Notions used in the statements\<close>

text \<open>The environment of a handshake raises nothing but instances of \<open>Exception\<close>.\<close>

definition only_Exceptions :: "handshake_env \<Rightarrow> bool" where
  "only_Exceptions env \<longleftrightarrow>
     (case connect_raises env of Some e \<Rightarrow> is_Exception e | None \<Rightarrow> True) \<and>
     (case first_recv env of RecvRaises e \<Rightarrow> is_Exception e | RecvText m \<Rightarrow> True) \<and>
     (case send_raises env of Some e \<Rightarrow> is_Exception e | None \<Rightarrow> True) \<and>
     (case second_recv env of RecvRaises e \<Rightarrow> is_Exception e | RecvText m \<Rightarrow> True)"

text \<open>
  The handshake does not succeed: the wait for the answer runs out of time; the answer
  is no JSON or no object; it is not of type \<open>res\<close>; its id is not the one sent; its
  \<open>ok\<close> is false; or its payload is missing, empty or no object.
\<close>

definition handshake_failure :: "handshake_env \<Rightarrow> bool" where
  "handshake_failure env \<longleftrightarrow>
     (case second_recv env of
        RecvRaises e \<Rightarrow> e = TimeoutError
      | RecvText None \<Rightarrow> True
      | RecvText (Some (JObj kvs)) \<Rightarrow>
          \<not> truthy (dict_get kvs (ustr ''ok'') JNull) \<or>
          dict_get kvs (ustr ''id'') JNull \<noteq> JStr (uuid4 env) \<or>
          dict_get kvs (ustr ''type'') JNull \<noteq> JStr (ustr ''res'') \<or>
          (case dict_get kvs (ustr ''payload'') JNull of JObj p \<Rightarrow> p = [] | _ \<Rightarrow> True)
      | RecvText (Some _) \<Rightarrow> True)"

text \<open>A handshake payload that \<open>connect\<close> accepts: a dict that is not empty.\<close>

definition usable_hello :: "json \<Rightarrow> bool" where
  "usable_hello h = (case h of JObj p \<Rightarrow> p \<noteq> [] | _ \<Rightarrow> False)"

fun is_invocation :: "effect \<Rightarrow> bool" where
  "is_invocation (Invoked h args) = True"
| "is_invocation e = False"

text \<open>
  Each handler of a list called once, in the order of the list, each on the state
  that the one before it left, whatever it raised.
\<close>

fun run_each :: "(nat \<Rightarrow> 'w handler) \<Rightarrow> nat list \<Rightarrow> json list \<Rightarrow> client \<times> 'w \<Rightarrow> client \<times> 'w" where
  "run_each hs [] args s = s"
| "run_each hs (h # rest) args (c, w) =
     (case hs h args c w of (r, c1, w1) \<Rightarrow> run_each hs rest args (c1, w1))"

text \<open>A handler that raises nothing but instances of \<open>Exception\<close>.\<close>

definition tame :: "'w handler \<Rightarrow> bool" where
  "tame f \<longleftrightarrow> (\<forall>args c w. (case fst (f args c w) of Some e \<Rightarrow> is_Exception e | None \<Rightarrow> True))"

text \<open>While the handler runs, the list of handlers under the name stays as it is.\<close>

definition keeps :: "'w handler \<Rightarrow> pystr \<Rightarrow> bool" where
  "keeps f name \<longleftrightarrow>
     (\<forall>args c w. registered (event_handlers (fst (snd (f args c w)))) name = registered (event_handlers c) name)"

text \<open>A payload that the handler of a chat call takes for one of its session.\<close>

definition for_session :: "pystr \<Rightarrow> json \<Rightarrow> bool" where
  "for_session session_key payload =
     (case payload of
        JObj kvs \<Rightarrow> dict_get kvs (ustr ''sessionKey'') JNull = JStr session_key
      | _ \<Rightarrow> False)"

text \<open>A content item of type \<open>text\<close>, and the text it carries (\<open>item.get("text", "")\<close>).\<close>

definition is_text_item :: "json \<Rightarrow> bool" where
  "is_text_item item =
     (case item of JObj kvs \<Rightarrow> dict_get kvs (ustr ''type'') JNull = JStr (ustr ''text'') | _ \<Rightarrow> False)"

definition item_text :: "json \<Rightarrow> json" where
  "item_text item = (case item of JObj kvs \<Rightarrow> dict_get kvs (ustr ''text'') (JStr []) | _ \<Rightarrow> JNull)"

definition texts_of :: "json list \<Rightarrow> json list" where
  "texts_of items = map item_text (filter is_text_item items)"

text \<open>
  A content item as the event format has it: an object, whose text is a string when
  its type is \<open>text\<close>.
\<close>

fun is_str :: "json \<Rightarrow> bool" where
  "is_str (JStr s) = True"
| "is_str v = False"

fun item_ok :: "json \<Rightarrow> bool" where
  "item_ok (JObj kvs) = (is_text_item (JObj kvs) \<longrightarrow> is_str (item_text (JObj kvs)))"
| "item_ok v = False"

text \<open>The callback, if there is one, raises nothing but instances of \<open>Exception\<close>.\<close>

definition callback_ok :: "(json \<Rightarrow> exc option) option \<Rightarrow> bool" where
  "callback_ok on_delta \<longleftrightarrow>
     (case on_delta of
        None \<Rightarrow> True
      | Some callback \<Rightarrow> (\<forall>v. (case callback v of Some e \<Rightarrow> is_Exception e | None \<Rightarrow> True)))"

text \<open>What the callback gets of a list of texts: nothing when there is no callback.\<close>

definition passed_on :: "(json \<Rightarrow> exc option) option \<Rightarrow> json list \<Rightarrow> json list" where
  "passed_on on_delta texts = (case on_delta of None \<Rightarrow> [] | Some callback \<Rightarrow> filter truthy texts)"

text \<open>The acknowledgment of \<open>chat.send\<close> reports an error.\<close>

definition reports_error :: "json \<Rightarrow> bool" where
  "reports_error result =
     (case result of
        JObj kvs \<Rightarrow> dict_get kvs (ustr ''status'') JNull = JStr (ustr ''error'')
      | _ \<Rightarrow> False)"

text \<open>How often a handler stands in the list under \<open>chat\<close>.\<close>

definition chat_count :: "nat \<Rightarrow> client \<Rightarrow> nat" where
  "chat_count h c = count_list (registered (event_handlers c) (ustr ''chat'')) h"

section \<open>Example states\<close>

definition new_client :: client where
  "new_client =
     \<lparr>url = ustr ''ws://127.0.0.1:18789'', token = None, password = None,
      client_name = ustr ''gateway-client'', client_version = ustr ''1.0.0'',
      ws = None, connected = False, pending = [], event_handlers = [],
      recv_task = None, closed = False, connect_nonce = JNull,
      futures = (\<lambda>a. Unfilled)\<rparr>"

text \<open>A connected client that waits for the answer to an \<open>agent\<close> request.\<close>

definition agent_client :: client where
  "agent_client =
     new_client\<lparr>ws := Some 0, connected := True, recv_task := Some Running,
       pending := [(ustr ''r1'', \<lparr>future = 0, expect_final = True\<rparr>)]\<rparr>"

definition accepted_res :: json where
  "accepted_res =
     JObj [(ustr ''type'', JStr (ustr ''res'')), (ustr ''id'', JStr (ustr ''r1'')),
       (ustr ''ok'', JBool True),
       (ustr ''payload'', JObj [(ustr ''status'', JStr (ustr ''accepted''))])]"

definition final_res :: json where
  "final_res =
     JObj [(ustr ''type'', JStr (ustr ''res'')), (ustr ''id'', JStr (ustr ''r1'')),
       (ustr ''ok'', JBool True),
       (ustr ''payload'', JObj [(ustr ''status'', JStr (ustr ''ok'')), (ustr ''text'', JStr (ustr ''hi''))])]"

definition failed_res :: json where
  "failed_res =
     JObj [(ustr ''type'', JStr (ustr ''res'')), (ustr ''id'', JStr (ustr ''r1'')),
       (ustr ''ok'', JBool False),
       (ustr ''error'', JObj [(ustr ''message'', JStr (ustr ''boom''))])]"

definition rejected_accepted_res :: json where
  "rejected_accepted_res =
     JObj [(ustr ''type'', JStr (ustr ''res'')), (ustr ''id'', JStr (ustr ''r1'')),
       (ustr ''ok'', JBool False),
       (ustr ''payload'', JObj [(ustr ''status'', JStr (ustr ''accepted''))]),
       (ustr ''error'', JObj [(ustr ''message'', JStr (ustr ''boom''))])]"

text \<open>A connected client with two requests in flight.\<close>

definition busy_client :: client where
  "busy_client =
     new_client\<lparr>ws := Some 0, connected := True, recv_task := Some Running,
       pending := [(ustr ''r1'', \<lparr>future = 0, expect_final = True\<rparr>),
                   (ustr ''r2'', \<lparr>future = 1, expect_final = False\<rparr>)]\<rparr>"

text \<open>A gateway that cannot be reached, one that stays silent, and one that says no.\<close>

definition refused :: handshake_env where
  "refused =
     \<lparr>connect_raises = Some OSError, socket = 1, uuid4 = ustr ''u1'',
      first_recv = RecvRaises TimeoutError, send_raises = None,
      second_recv = RecvRaises TimeoutError\<rparr>"

definition silent :: handshake_env where
  "silent = refused\<lparr>connect_raises := None\<rparr>"

definition unauthorized :: handshake_env where
  "unauthorized =
     silent\<lparr>second_recv := RecvText (Some (JObj
       [(ustr ''type'', JStr (ustr ''res'')), (ustr ''id'', JStr (ustr ''u1'')),
        (ustr ''ok'', JBool False),
        (ustr ''error'', JObj [(ustr ''message'', JStr (ustr ''unauthorized''))])]))\<rparr>"

definition failing_script :: "(bool \<times> handshake_env) list" where
  "failing_script =
     [(False, refused), (False, silent), (False, unauthorized), (False, refused),
      (False, refused), (False, refused), (False, refused)]"

text \<open>
  Handlers 1, 2 and 3 count their calls in an integer and leave the client alone;
  handler 1 raises. The client has 1 and 2 under \<open>custom.thing\<close> and 3 under the
  wildcard.
\<close>

definition flaky :: "nat \<Rightarrow> int handler" where
  "flaky h args c w = (if h = 1 then Some (Exception (JStr (ustr ''boom''))) else None, c, w + 1)"

text \<open>The same handlers when the task is cancelled while it awaits handler 1.\<close>

definition cancelled :: "nat \<Rightarrow> int handler" where
  "cancelled h args c w = (if h = 1 then Some CancelledError else None, c, w + 1)"

definition listening_client :: client where
  "listening_client =
     on_event (ustr ''*'') 3
       (on_event (ustr ''custom.thing'') 2 (on_event (ustr ''custom.thing'') 1 new_client))"

definition custom_event :: "(pystr \<times> json) list" where
  "custom_event =
     [(ustr ''type'', JStr (ustr ''event'')), (ustr ''event'', JStr (ustr ''custom.thing'')),
      (ustr ''payload'', JInt 7)]"

text \<open>
  A chat call for session \<open>s1\<close>: the gateway acknowledges the request, two events of
  session \<open>s2\<close> pass by, then a \<open>delta\<close> and the \<open>final\<close> event of \<open>s1\<close> arrive.
\<close>

definition chat_message :: "json list \<Rightarrow> (pystr \<times> json) list" where
  "chat_message content =
     [(ustr ''role'', JStr (ustr ''assistant'')), (ustr ''content'', JList content)]"

definition chat_fields :: "string \<Rightarrow> string \<Rightarrow> json list \<Rightarrow> (pystr \<times> json) list" where
  "chat_fields session state content =
     [(ustr ''sessionKey'', JStr (ustr session)), (ustr ''state'', JStr (ustr state)),
      (ustr ''message'', JObj (chat_message content))]"

definition chat_event :: "string \<Rightarrow> string \<Rightarrow> json list \<Rightarrow> json" where
  "chat_event session state content = JObj (chat_fields session state content)"

definition text_item :: "string \<Rightarrow> json" where
  "text_item t = JObj [(ustr ''type'', JStr (ustr ''text'')), (ustr ''text'', JStr (ustr t))]"

definition chat_ack :: json where
  "chat_ack =
     JObj [(ustr ''type'', JStr (ustr ''res'')), (ustr ''id'', JStr (ustr ''q1'')),
       (ustr ''ok'', JBool True),
       (ustr ''payload'', JObj [(ustr ''runId'', JStr (ustr ''run-1'')), (ustr ''status'', JStr (ustr ''started''))])]"

definition hello_call :: chat_env where
  "hello_call =
     \<lparr>handler_id = 5,
      chat_request = \<lparr>request_id = ustr ''q1'', new_future = 9, req_send_raises = None,
                      while_waiting = (\<lambda>c. snd (handle_response chat_ack c))\<rparr>,
      chat_payloads =
        [chat_event ''s2'' ''delta'' [text_item ''other''],
         chat_event ''s2'' ''final'' [text_item ''other''],
         chat_event ''s1'' ''delta'' [text_item ''hel''],
         chat_event ''s1'' ''final'' [text_item ''hello '']],
      while_streaming = (\<lambda>c. c), wait_raises = None\<rparr>"

text \<open>The same call when no answer to the request ever comes.\<close>

definition unanswered_call :: chat_env where
  "unanswered_call =
     hello_call\<lparr>chat_request := (chat_request hello_call)\<lparr>while_waiting := (\<lambda>c. c)\<rparr>\<rparr>"

text \<open>The same call when the answer is only blanks.\<close>

definition blank_call :: chat_env where
  "blank_call = hello_call\<lparr>chat_payloads := [chat_event ''s1'' ''final'' [text_item ''  '']]\<rparr>"

text \<open>A \<open>final\<close> event with two items of type \<open>text\<close>.\<close>

definition two_texts :: json where
  "two_texts = chat_event ''s1'' ''final'' [text_item ''a'', text_item ''b'']"

text \<open>
  Two chat calls have their handlers 5 and 6 under \<open>chat\<close>. While handler 5 is
  awaited, its call runs out of time and its \<open>finally\<close> block takes the handler out
  of the list.
\<close>

definition leaving :: "nat \<Rightarrow> int handler" where
  "leaving h args c w = (None, if h = 5 then remove_chat_handler 5 c else c, w + 1)"

definition two_calls_client :: client where
  "two_calls_client = on_event (ustr ''chat'') 6 (on_event (ustr ''chat'') 5 agent_client)"

definition chat_frame :: "(pystr \<times> json) list" where
  "chat_frame =
     [(ustr ''type'', JStr (ustr ''event'')), (ustr ''event'', JStr (ustr ''chat'')),
      (ustr ''payload'', chat_event ''s1'' ''delta'' [text_item ''hel''])]"

text \<open>The call of \<open>hello_call\<close> when a \<open>delta\<close> event comes in behind the \<open>final\<close> event.\<close>

definition overtaken_call :: chat_env where
  "overtaken_call =
     hello_call\<lparr>chat_payloads :=
       [chat_event ''s1'' ''final'' [text_item ''hello''],
        chat_event ''s1'' ''delta'' [text_item ''x'']]\<rparr>"

text \<open>The call of \<open>hello_call\<close> with one more event of session \<open>s2\<close> at the end.\<close>

definition crowded_call :: chat_env where
  "crowded_call =
     hello_call\<lparr>chat_payloads := chat_payloads hello_call @ [chat_event ''s2'' ''delta'' [text_item ''more'']]\<rparr>"

section \<open>Basic facts\<close>

lemma ustr_eq_iff [simp]: "ustr a = ustr b \<longleftrightarrow> a = b"
  by (simp add: ustr_def inj_of_char)

lemma ustr_Nil [simp]: "ustr s = [] \<longleftrightarrow> s = []"
  by (simp add: ustr_def)

lemma caught_Exception: "is_Exception e \<Longrightarrow> caught e = Inr JNull"
  by (simp add: caught_def)

section \<open>Request correlation: intermediate acknowledgments\<close>

lemma handle_response_ack:
  assumes "map_of (pending c) k = Some p" "expect_final p"
    and "py_get r (ustr ''id'') JNull = Inr (JStr k)"
    and "py_get r (ustr ''payload'') JNull = Inr payload" "status_accepted payload"
  shows "handle_response r c = (None, c)"
  using assms by (simp add: handle_response_def)

lemma handle_responses_acks:
  assumes "map_of (pending c) k = Some p" "expect_final p"
    and "\<forall>a \<in> set acks. py_get a (ustr ''id'') JNull = Inr (JStr k) \<and>
           (\<exists>payload. py_get a (ustr ''payload'') JNull = Inr payload \<and> status_accepted payload)"
  shows "handle_responses (acks @ rs) c = handle_responses rs c"
  using assms(3)
proof (induction acks)
  case Nil
  then show ?case by simp
next
  case (Cons a acks)
  then obtain payload where "py_get a (ustr ''id'') JNull = Inr (JStr k)"
     "py_get a (ustr ''payload'') JNull = Inr payload" "status_accepted payload" by auto
  then have "handle_response a c = (None, c)"
    using handle_response_ack assms(1,2) by blast
  with Cons show ?case by simp
qed

lemma handle_response_final:
  assumes "map_of (pending c) k = Some p" "k \<noteq> []"
    and "py_get r (ustr ''id'') JNull = Inr (JStr k)"
    and "py_get r (ustr ''payload'') JNull = Inr payload" "\<not> status_accepted payload"
  shows "handle_response r c = complete_request r payload k p c"
  using assms by (simp add: handle_response_def)

text \<open>
  Claim C1, as amended. Let a request be pending under a non-empty id with
  \<open>expect_final\<close> set and its future not done. Any number of \<open>res\<close> frames with that id
  whose payload is a mapping with status \<open>accepted\<close> leave the client as it is,
  whatever their \<open>ok\<close> field says. The first frame behind them with that id whose
  payload is not such a mapping completes the request: the entry leaves \<open>pending\<close>, and
  the future gets the payload when \<open>ok\<close> is true, and otherwise (the \<open>error\<close> field
  being absent or a mapping) an \<open>Exception\<close> with the \<open>message\<close> of the error, or with
  the default message.
\<close>

theorem expect_final_completion:
  assumes "map_of (pending c) k = Some p" and "expect_final p" and "k \<noteq> []"
    and "futures c (future p) = Unfilled"
    and "\<forall>a \<in> set acks. py_get a (ustr ''id'') JNull = Inr (JStr k) \<and>
           (\<exists>payload. py_get a (ustr ''payload'') JNull = Inr payload \<and> status_accepted payload)"
    and "py_get r (ustr ''id'') JNull = Inr (JStr k)"
    and "py_get r (ustr ''payload'') JNull = Inr payload" and "\<not> status_accepted payload"
    and "py_get r (ustr ''ok'') JNull = Inr ok"
  shows "handle_responses acks c = (None, c) \<and>
         (truthy ok \<longrightarrow>
            handle_responses (acks @ [r]) c =
              (None, c\<lparr>pending := AList.delete k (pending c),
                       futures := (futures c)(future p := Result payload)\<rparr>)) \<and>
         (\<not> truthy ok \<longrightarrow>
            (\<forall>err. py_get r (ustr ''error'') (JObj []) = Inr (JObj err) \<longrightarrow>
               handle_responses (acks @ [r]) c =
                 (None, c\<lparr>pending := AList.delete k (pending c),
                          futures := (futures c)(future p :=
                            Failed (Exception (dict_get err (ustr ''message'') (JStr unknown_error))))\<rparr>)))"
proof -
  have acks: "handle_responses (acks @ rs) c = handle_responses rs c" for rs
    using handle_responses_acks [OF assms(1,2,5)] .
  have one: "handle_responses [r] c = complete_request r payload k p c"
    using handle_response_final [OF assms(1,3,6,7,8)]
    by (simp split: prod.splits option.splits)
  have "handle_responses acks c = (None, c)"
    using acks [of "[]"] by simp
  moreover have "truthy ok \<Longrightarrow> complete_request r payload k p c =
     (None, c\<lparr>pending := AList.delete k (pending c),
              futures := (futures c)(future p := Result payload)\<rparr>)"
    using assms(4,9) by (simp add: complete_request_def set_result_def)
  moreover have "\<not> truthy ok \<Longrightarrow> py_get r (ustr ''error'') (JObj []) = Inr (JObj err) \<Longrightarrow>
     complete_request r payload k p c =
       (None, c\<lparr>pending := AList.delete k (pending c),
                futures := (futures c)(future p :=
                  Failed (Exception (dict_get err (ustr ''message'') (JStr unknown_error))))\<rparr>)" for err
    using assms(4,9) by (simp add: complete_request_def set_exception_def)
  ultimately show ?thesis
    using acks [of "[r]"] one by simp
qed

theorem expect_final_completion_witness:
  "handle_responses [accepted_res, accepted_res] agent_client = (None, agent_client) \<and>
   handle_responses [accepted_res, accepted_res, final_res] agent_client =
     (None, agent_client\<lparr>pending := [],
        futures := (futures agent_client)(0 := Result (JObj [(ustr ''status'', JStr (ustr ''ok'')),
           (ustr ''text'', JStr (ustr ''hi''))]))\<rparr>) \<and>
   handle_responses [accepted_res, failed_res] agent_client =
     (None, agent_client\<lparr>pending := [],
        futures := (futures agent_client)(0 := Failed (Exception (JStr (ustr ''boom''))))\<rparr>)"
proof -
  have a: "map_of (pending agent_client) (ustr ''r1'') = Some \<lparr>future = 0, expect_final = True\<rparr>"
    by (simp add: agent_client_def)
  have b: "futures agent_client (future \<lparr>future = 0, expect_final = True\<rparr>) = Unfilled"
    by (simp add: agent_client_def new_client_def)
  have ok: "handle_responses [accepted_res, accepted_res] agent_client = (None, agent_client) \<and>
    handle_responses ([accepted_res, accepted_res] @ [final_res]) agent_client =
     (None, agent_client\<lparr>pending := AList.delete (ustr ''r1'') (pending agent_client),
        futures := (futures agent_client)(0 := Result (JObj [(ustr ''status'', JStr (ustr ''ok'')),
           (ustr ''text'', JStr (ustr ''hi''))]))\<rparr>)"
    using expect_final_completion [OF a _ _ b, of "[accepted_res, accepted_res]" final_res
      "JObj [(ustr ''status'', JStr (ustr ''ok'')), (ustr ''text'', JStr (ustr ''hi''))]" "JBool True"]
    by (simp add: accepted_res_def final_res_def dict_get_def status_accepted_def)
  have no: "handle_responses ([accepted_res] @ [failed_res]) agent_client =
     (None, agent_client\<lparr>pending := AList.delete (ustr ''r1'') (pending agent_client),
        futures := (futures agent_client)(0 := Failed (Exception (JStr (ustr ''boom''))))\<rparr>)"
    using expect_final_completion [OF a _ _ b, of "[accepted_res]" failed_res JNull "JBool False"]
    by (simp add: accepted_res_def failed_res_def dict_get_def status_accepted_def)
  have "AList.delete (ustr ''r1'') (pending agent_client) = []"
    by (simp add: agent_client_def AList.delete_eq)
  with ok no show ?thesis by simp
qed

text \<open>
  The claim as it stands fails on a frame that has \<open>ok == false\<close> and a payload with
  status \<open>accepted\<close>: the test for the acknowledgment comes first, so the frame is
  taken for one and the request stays pending.
\<close>

theorem rejected_accepted_counterexample:
  "py_get rejected_accepted_res (ustr ''id'') JNull = Inr (JStr (ustr ''r1'')) \<and>
   py_get rejected_accepted_res (ustr ''ok'') JNull = Inr (JBool False) \<and>
   map_of (pending agent_client) (ustr ''r1'') = Some \<lparr>future = 0, expect_final = True\<rparr> \<and>
   futures agent_client 0 = Unfilled \<and>
   handle_response rejected_accepted_res agent_client = (None, agent_client)"
  by (simp add: rejected_accepted_res_def agent_client_def new_client_def dict_get_def
        handle_response_def status_accepted_def)

section \<open>Request correlation: frames that name no pending request\<close>

text \<open>
  A \<open>res\<close> frame whose id is missing (\<open>get\<close> yields \<open>None\<close>), or is a string that is no
  key of \<open>pending\<close>, or is any other value that can be hashed, is dropped: no
  exception, and the client (pending requests, handler registry, flags, futures) is
  the same afterwards.
\<close>

lemma handle_response_unknown_id:
  assumes "py_get response (ustr ''id'') JNull = Inr req_id"
    and "case req_id of JStr k \<Rightarrow> map_of (pending c) k = None
         | JList xs \<Rightarrow> xs = [] | JObj m \<Rightarrow> m = [] | _ \<Rightarrow> True"
  shows "handle_response response c = (None, c)"
  using assms by (cases req_id) (simp_all add: handle_response_def)

text \<open>
  Claim C8. The code does not do what the claim says on a \<open>res\<close> frame whose id is a
  list or a dict that is not empty. Such an id is no key of \<open>pending\<close>, so the frame
  is one the claim is about; but \<open>req_id not in self.pending\<close> cannot hash it, and
  \<open>_handle_response\<close> raises \<open>TypeError\<close> where the claim has the frame dropped
  without an error.
\<close>

theorem handle_response_unhashable_id:
  "handle_response (JObj [(ustr ''type'', JStr (ustr ''res'')), (ustr ''id'', JList [JInt 1])]) c
     = (Some TypeError, c) \<and>
   handle_response (JObj [(ustr ''type'', JStr (ustr ''res'')),
       (ustr ''id'', JObj [(ustr ''n'', JInt 1)])]) c
     = (Some TypeError, c)"
  by (simp add: handle_response_def dict_get_def)

section \<open>Disconnecting\<close>

lemma fail_pending_done: "fs a \<noteq> Unfilled \<Longrightarrow> fail_pending ps fs a = fs a"
  by (induction ps fs rule: fail_pending.induct) auto

lemma fail_pending_unfilled:
  "(k, p) \<in> set ps \<Longrightarrow> fs (future p) = Unfilled \<Longrightarrow>
   fail_pending ps fs (future p) = Failed (Exception (JStr connection_closed))"
proof (induction ps fs rule: fail_pending.induct)
  case (1 fs)
  then show ?case by simp
next
  case (2 req_id q ps fs)
  show ?case
  proof (cases "future q = future p")
    case True
    then show ?thesis using 2(3) by (simp add: fail_pending_done)
  next
    case False
    then have "(k, p) \<in> set ps" using 2(2) by auto
    then show ?thesis using 2 False by simp
  qed
qed

lemma cancel_idem: "map_option cancel (map_option cancel t) = map_option cancel t"
proof -
  have "cancel (cancel x) = cancel x" for x by (cases x) simp_all
  then show ?thesis by (cases t) simp_all
qed

text \<open>
  Claim C3. After \<open>disconnect\<close> the pending map is empty, the client is closed and
  not connected, and every future that a pending entry held and that was not done
  holds the exception \<open>Exception("...")\<close> with the message \<open>connection_closed\<close>; a
  future that was done keeps what it had. A second \<open>disconnect\<close> changes nothing.
\<close>

theorem disconnect_fails_pending:
  "pending (disconnect c) = [] \<and> closed (disconnect c) \<and> \<not> connected (disconnect c) \<and>
   ws (disconnect c) = None \<and>
   (\<forall>(k, p) \<in> set (pending c). futures c (future p) = Unfilled \<longrightarrow>
      futures (disconnect c) (future p) = Failed (Exception (JStr connection_closed))) \<and>
   (\<forall>a. futures c a \<noteq> Unfilled \<longrightarrow> futures (disconnect c) a = futures c a) \<and>
   disconnect (disconnect c) = disconnect c"
proof -
  have "disconnect (disconnect c) = disconnect c"
    by (simp add: disconnect_def cancel_idem)
  moreover have "\<forall>(k, p) \<in> set (pending c). futures c (future p) = Unfilled \<longrightarrow>
      futures (disconnect c) (future p) = Failed (Exception (JStr connection_closed))"
    by (auto simp: disconnect_def fail_pending_unfilled)
  moreover have "\<forall>a. futures c a \<noteq> Unfilled \<longrightarrow> futures (disconnect c) a = futures c a"
    by (simp add: disconnect_def fail_pending_done)
  ultimately show ?thesis by (simp add: disconnect_def)
qed

theorem disconnect_fails_pending_witness:
  "pending (disconnect busy_client) = [] \<and>
   futures (disconnect busy_client) 0 = Failed (Exception (JStr connection_closed)) \<and>
   futures (disconnect busy_client) 1 = Failed (Exception (JStr connection_closed)) \<and>
   disconnect (disconnect busy_client) = disconnect busy_client"
  using disconnect_fails_pending [of busy_client]
  by (simp add: busy_client_def new_client_def)

section \<open>Reconnecting\<close>

lemma reconnect_loop_nth:
  "reconnect_loop script b c = (waits, r, c') \<Longrightarrow> 1 \<le> b \<Longrightarrow> b \<le> 30 \<Longrightarrow> i < length waits \<Longrightarrow>
   waits ! i = min (b * 2 ^ i) 30"
proof (induction script arbitrary: b c waits r c' i)
  case Nil
  then show ?case by (simp split: if_splits)
next
  case (Cons a script)
  obtain shutdown env where a: "a = (shutdown, env)" by (cases a)
  show ?case
  proof (cases i)
    case 0
    with Cons.prems a show ?thesis
      by (auto simp: Let_def split: if_splits prod.splits sum.splits bool.splits)
  next
    case (Suc j)
    with Cons.prems a obtain c2 ws where
      rec: "reconnect_loop script (min (b * 2) 30) c2 = (ws, r, c')" and w: "waits = b # ws"
      by (auto simp: Let_def split: if_splits prod.splits sum.splits bool.splits)
    have "ws ! j = min (min (b * 2) 30 * 2 ^ j) 30"
      using Cons.IH [OF rec] Cons.prems Suc w by simp
    moreover have "min (min (b * 2) 30 * 2 ^ j) 30 = min (b * 2 ^ Suc j) 30"
    proof (cases "b * 2 \<le> 30")
      case True
      then show ?thesis by (simp add: mult.assoc)
    next
      case False
      have p: "(1::int) \<le> 2 ^ j" by simp
      have "b * 1 \<le> b * 2 ^ j"
        using p Cons.prems(2) by (intro mult_left_mono) simp_all
      moreover have "b * 2 ^ Suc j = 2 * (b * 2 ^ j)" by simp
      ultimately have big: "30 < b * 2 ^ Suc j" using False by linarith
      have "(30::int) * 1 \<le> 30 * 2 ^ j"
        using p by (intro mult_left_mono) simp_all
      then have "min (min (b * 2) 30 * 2 ^ j) 30 = 30" using False by simp
      moreover have "min (b * 2 ^ Suc j) 30 = 30" using big by (simp only: min_def) simp
      ultimately show ?thesis by (simp only:)
    qed
    ultimately show ?thesis using w Suc by simp
  qed
qed

text \<open>
  Claim C4. The arguments of \<open>asyncio.sleep\<close> in one run of \<open>_reconnect\<close>, in order:
  the first is 1; each later one, which follows a failed attempt, is twice the one
  before it, cut off at 30; none exceeds 30; and they never decrease.
\<close>

theorem reconnect_backoff:
  assumes "reconnect script c = (waits, r, c')"
  shows "(waits \<noteq> [] \<longrightarrow> hd waits = 1) \<and>
         (\<forall>i. Suc i < length waits \<longrightarrow> waits ! Suc i = min (2 * waits ! i) 30) \<and>
         (\<forall>w \<in> set waits. w \<le> 30) \<and>
         sorted waits"
proof (cases "closed c")
  case True
  with assms show ?thesis by (simp add: reconnect_def)
next
  case False
  with assms have loop: "reconnect_loop script 1 c = (waits, r, c')"
    by (simp add: reconnect_def)
  have nth: "waits ! i = min (2 ^ i) 30" if "i < length waits" for i
    using reconnect_loop_nth [OF loop _ _ that] by simp
  have first: "waits \<noteq> [] \<longrightarrow> hd waits = 1"
    using nth [of 0] by (cases waits) auto
  have step: "waits ! Suc i = min (2 * waits ! i) 30" if "Suc i < length waits" for i
    using nth [of i] nth [of "Suc i"] that by (simp add: min_def)
  have bound: "w \<le> 30" if "w \<in> set waits" for w
    using that nth by (auto simp: in_set_conv_nth)
  have "waits ! i \<le> waits ! j" if "i \<le> j" "j < length waits" for i j
  proof -
    have "(2::int) ^ i \<le> 2 ^ j" using that by (simp add: power_increasing)
    then have "min (2 ^ i) 30 \<le> min (2 ^ j) (30::int)" by (rule min.mono) simp
    then show ?thesis using nth [of i] nth [of j] that by simp
  qed
  then have "sorted waits" by (simp add: sorted_iff_nth_mono)
  with first step bound show ?thesis by blast
qed

lemma connect_refused: "\<not> closed c \<Longrightarrow> connect refused c = (Inr False, cleanup_connection c)"
  by (simp add: connect_def refused_def cleanup_connection_def Let_def)

lemma connect_silent: "\<not> closed c \<Longrightarrow> connect silent c = (Inr False, cleanup_connection c)"
  by (simp add: connect_def silent_def refused_def cleanup_connection_def Let_def
        send_connect_def send_and_wait_def caught_def)

lemma connect_unauthorized: "\<not> closed c \<Longrightarrow> connect unauthorized c = (Inr False, cleanup_connection c)"
  by (simp add: connect_def unauthorized_def silent_def refused_def cleanup_connection_def Let_def
        send_connect_def send_and_wait_def caught_def read_hello_def dict_get_def)

lemma failing_script_waits:
  "reconnect failing_script (cleanup_connection agent_client) =
     ([1, 2, 4, 8, 16, 30, 30], Sleeping, cleanup_connection agent_client)"
proof -
  have c: "\<not> closed (cleanup_connection agent_client)" "\<not> connected (cleanup_connection agent_client)"
    "cleanup_connection (cleanup_connection agent_client) = cleanup_connection agent_client"
    by (simp_all add: cleanup_connection_def agent_client_def new_client_def)
  show ?thesis
    by (simp add: reconnect_def failing_script_def c connect_refused connect_silent connect_unauthorized)
qed

theorem reconnect_backoff_witness:
  "reconnect failing_script (cleanup_connection agent_client) =
     ([1, 2, 4, 8, 16, 30, 30], Sleeping, cleanup_connection agent_client) \<and>
   hd [1, 2, 4, 8, 16, 30, 30 :: int] = 1 \<and>
   [1, 2, 4, 8, 16, 30, 30 :: int] ! 5 = min (2 * [1, 2, 4, 8, 16, 30, 30] ! 4) 30 \<and>
   sorted [1, 2, 4, 8, 16, 30, 30 :: int]"
  using reconnect_backoff [OF failing_script_waits] failing_script_waits by simp

section \<open>The handshake\<close>

lemma read_hello_failure:
  assumes "second_recv env = RecvText (Some response)" "handshake_failure env"
  shows "\<exists>h. read_hello (uuid4 env) response = Inr h \<and> \<not> usable_hello h"
proof (cases response)
  case (JObj kvs)
  with assms have f: "\<not> truthy (dict_get kvs (ustr ''ok'') JNull) \<or>
          dict_get kvs (ustr ''id'') JNull \<noteq> JStr (uuid4 env) \<or>
          dict_get kvs (ustr ''type'') JNull \<noteq> JStr (ustr ''res'') \<or>
          (case dict_get kvs (ustr ''payload'') JNull of JObj p \<Rightarrow> p = [] | _ \<Rightarrow> True)"
    by (simp add: handshake_failure_def)
  have e: "\<exists>h. (case py_get err (ustr ''message'') (JStr unknown_error) of
                    Inl e \<Rightarrow> caught e | Inr error_msg \<Rightarrow> Inr JNull) = Inr h \<and> \<not> usable_hello h" for err
    by (cases err) (simp_all add: caught_def usable_hello_def)
  show ?thesis
    using f e JObj by (auto simp: read_hello_def usable_hello_def split: json.splits)
qed (simp_all add: read_hello_def caught_def usable_hello_def)

lemma send_and_wait_failure:
  assumes "only_Exceptions env" "handshake_failure env"
  shows "\<exists>h. send_and_wait env = Inr h \<and> \<not> usable_hello h"
proof (cases "send_raises env")
  case (Some e)
  with assms(1) show ?thesis
    by (simp add: send_and_wait_def only_Exceptions_def caught_def usable_hello_def)
next
  case None
  show ?thesis
  proof (cases "second_recv env")
    case (RecvRaises e)
    with assms(2) None show ?thesis
      by (simp add: send_and_wait_def handshake_failure_def caught_def usable_hello_def)
  next
    case (RecvText m)
    show ?thesis
    proof (cases m)
      case None
      with RecvText \<open>send_raises env = None\<close> show ?thesis
        by (simp add: send_and_wait_def caught_def usable_hello_def)
    next
      case (Some response)
      with RecvText \<open>send_raises env = None\<close> read_hello_failure [OF _ assms(2)] show ?thesis
        by (simp add: send_and_wait_def)
    qed
  qed
qed

lemma send_connect_failure:
  assumes "only_Exceptions env" "handshake_failure env"
  shows "\<exists>h. send_connect env c = Inr h \<and> \<not> usable_hello h"
proof -
  have n: "\<exists>h. (Inr JNull :: exc + json) = Inr h \<and> \<not> usable_hello h"
    by (simp add: usable_hello_def)
  have g: "\<exists>h. (case py_get v (ustr ''nonce'') JNull of Inl e \<Rightarrow> caught e
                 | Inr nonce \<Rightarrow> send_and_wait env) = Inr h \<and> \<not> usable_hello h" for v
    using send_and_wait_failure [OF assms] n by (cases v) (simp_all add: caught_def)
  show ?thesis
  proof (cases "first_recv env")
    case (RecvRaises e)
    with assms(1) have "is_Exception e" by (simp add: only_Exceptions_def)
    with RecvRaises send_and_wait_failure [OF assms] n show ?thesis
      by (simp add: send_connect_def caught_def)
  next
    case (RecvText m)
    show ?thesis
    proof (cases m)
      case None
      with RecvText n show ?thesis by (simp add: send_connect_def caught_def)
    next
      case (Some first_data)
      with RecvText send_and_wait_failure [OF assms] n g show ?thesis
        by (cases first_data) (simp_all add: send_connect_def caught_def)
    qed
  qed
qed

lemma connect_unusable_hello:
  assumes "\<not> closed c" "connect_raises env = None"
    and "send_connect env ((cleanup_connection c)\<lparr>ws := Some (socket env)\<rparr>) = Inr h" "\<not> usable_hello h"
  shows "fst (connect env c) = Inr False \<and> \<not> connected (snd (connect env c)) \<and>
         recv_task (snd (connect env c)) = None"
  using assms
  by (cases h) (auto simp: connect_def Let_def usable_hello_def cleanup_connection_def)

text \<open>
  Claim C6. On a client that is not closed, with an environment that raises nothing
  but instances of \<open>Exception\<close>: when the handshake does not succeed (see
  \<open>handshake_failure\<close>), \<open>connect\<close> returns \<open>False\<close> and raises nothing, and it leaves
  \<open>connected\<close> false and \<open>_recv_task\<close> \<open>None\<close>.
\<close>

theorem connect_handshake_failure:
  assumes "\<not> closed c" and "only_Exceptions env" and "handshake_failure env"
  shows "fst (connect env c) = Inr False \<and> \<not> connected (snd (connect env c)) \<and>
         recv_task (snd (connect env c)) = None"
proof (cases "connect_raises env")
  case None
  obtain h where "send_connect env ((cleanup_connection c)\<lparr>ws := Some (socket env)\<rparr>) = Inr h"
    "\<not> usable_hello h"
    using send_connect_failure [OF assms(2,3)] by blast
  then show ?thesis using connect_unusable_hello [OF assms(1) None] by blast
next
  case (Some e)
  with assms(2) have "is_Exception e" by (simp add: only_Exceptions_def)
  with Some assms(1) show ?thesis
    by (simp add: connect_def Let_def cleanup_connection_def)
qed

theorem connect_handshake_failure_witness:
  "fst (connect silent agent_client) = Inr False \<and>
   \<not> connected (snd (connect silent agent_client)) \<and>
   recv_task (snd (connect silent agent_client)) = None \<and>
   fst (connect unauthorized new_client) = Inr False \<and>
   \<not> connected (snd (connect unauthorized new_client)) \<and>
   recv_task (snd (connect unauthorized new_client)) = None"
proof -
  have a: "\<not> closed agent_client" "\<not> closed new_client"
    by (simp_all add: agent_client_def new_client_def)
  have s: "only_Exceptions silent" "handshake_failure silent"
    by (simp_all add: only_Exceptions_def handshake_failure_def silent_def refused_def)
  have u: "only_Exceptions unauthorized" "handshake_failure unauthorized"
    by (simp_all add: only_Exceptions_def handshake_failure_def unauthorized_def silent_def
          refused_def dict_get_def)
  show ?thesis
    using connect_handshake_failure [OF a(1) s] connect_handshake_failure [OF a(2) u] by simp
qed

section \<open>Event dispatch: one handler's failure\<close>

lemma tameD:
  assumes "tame f" "f args c w = (r, c1, w1)"
  shows "case r of Some e \<Rightarrow> is_Exception e | None \<Rightarrow> True"
proof -
  from assms(1) have "case fst (f args c w) of Some e \<Rightarrow> is_Exception e | None \<Rightarrow> True"
    unfolding tame_def by blast
  with assms(2) show ?thesis by simp
qed

lemma keepsD:
  assumes "keeps f k" "f args c w = (r, c1, w1)"
  shows "registered (event_handlers c1) k = registered (event_handlers c) k"
proof -
  from assms(1) have "registered (event_handlers (fst (snd (f args c w)))) k = registered (event_handlers c) k"
    unfolding keeps_def by blast
  with assms(2) show ?thesis by simp
qed

lemma run_each_keeps:
  assumes "\<forall>h \<in> set handlers. keeps (hs h) k"
  shows "registered (event_handlers (fst (run_each hs handlers args (c, w)))) k = registered (event_handlers c) k"
  using assms
proof (induction handlers arbitrary: c w)
  case Nil
  then show ?case by simp
next
  case (Cons h handlers)
  obtain r c1 w1 where step: "hs h args c w = (r, c1, w1)" by (cases "hs h args c w")
  have "registered (event_handlers c1) k = registered (event_handlers c) k"
    using Cons.prems step keepsD by fastforce
  then show ?case using Cons step by simp
qed

text \<open>The loop from index \<open>i\<close> on, when no handler of the list changes the list.\<close>

lemma run_handlers_all:
  assumes "registered (event_handlers c) name = handlers" and "i \<le> length handlers"
    and "\<forall>h \<in> set handlers. tame (hs h) \<and> keeps (hs h) name"
  shows "\<exists>more. run_handlers hs name args i effects c w =
             Some (None, effects @ more, run_each hs (drop i handlers) args (c, w)) \<and>
           filter is_invocation more = map (\<lambda>h. Invoked h args) (drop i handlers)"
  using assms(1,2)
proof (induction "length handlers - i" arbitrary: i effects c w)
  case 0
  then have "drop i handlers = []" by simp
  moreover have "\<not> i < length (registered (event_handlers c) name)" using 0 by simp
  ultimately show ?case by (subst run_handlers.simps) simp
next
  case (Suc n)
  then have i: "i < length handlers" by simp
  let ?h = "handlers ! i"
  have h: "?h \<in> set handlers" using i by simp
  obtain r c1 w1 where step: "hs ?h args c w = (r, c1, w1)" by (cases "hs ?h args c w")
  have r: "case r of Some e \<Rightarrow> is_Exception e | None \<Rightarrow> True"
  proof -
    from assms(3) h have "tame (hs ?h)" by blast
    then show ?thesis using step by (rule tameD)
  qed
  have "registered (event_handlers c1) name = registered (event_handlers c) name"
  proof -
    from assms(3) h have "keeps (hs ?h) name" by blast
    then show ?thesis using step by (rule keepsD)
  qed
  then have same: "registered (event_handlers c1) name = handlers" using Suc.prems by simp
  have d: "drop i handlers = ?h # drop (Suc i) handlers"
    using i by (simp add: Cons_nth_drop_Suc)
  have n: "n = length handlers - Suc i" using Suc.hyps(2) by simp
  show ?case
  proof (cases r)
    case None
    obtain more where m: "run_handlers hs name args (Suc i) (effects @ [Invoked ?h args]) c1 w1 =
        Some (None, (effects @ [Invoked ?h args]) @ more, run_each hs (drop (Suc i) handlers) args (c1, w1))"
      "filter is_invocation more = map (\<lambda>h. Invoked h args) (drop (Suc i) handlers)"
      using Suc.hyps(1) [OF n same] i by (metis Suc_leI)
    have "run_handlers hs name args i effects c w =
        Some (None, effects @ (Invoked ?h args # more), run_each hs (drop i handlers) args (c, w))"
      using m(1) step None i Suc.prems(1) d by (subst run_handlers.simps) simp
    then show ?thesis using m(2) d by (intro exI [of _ "Invoked ?h args # more"]) simp
  next
    case (Some e)
    with r have e: "is_Exception e" by simp
    obtain more where m: "run_handlers hs name args (Suc i) (effects @ [Invoked ?h args, Logged e]) c1 w1 =
        Some (None, (effects @ [Invoked ?h args, Logged e]) @ more, run_each hs (drop (Suc i) handlers) args (c1, w1))"
      "filter is_invocation more = map (\<lambda>h. Invoked h args) (drop (Suc i) handlers)"
      using Suc.hyps(1) [OF n same] i by (metis Suc_leI)
    have "run_handlers hs name args i effects c w =
        Some (None, effects @ (Invoked ?h args # Logged e # more), run_each hs (drop i handlers) args (c, w))"
      using m(1) step Some e i Suc.prems(1) d by (subst run_handlers.simps) simp
    then show ?thesis using m(2) d by (intro exI [of _ "Invoked ?h args # Logged e # more"]) simp
  qed
qed

text \<open>
  Claim C7, as amended. Take an event whose name is a string other than
  \<open>connect.challenge\<close> and \<open>tick\<close>, and let every handler registered under that name
  or under the wildcard raise nothing but instances of \<open>Exception\<close> and leave the two
  lists as they are while it runs. Then \<open>_handle_event\<close> comes to an end and raises
  nothing; the calls it makes are every handler under the name, in the order of the
  list, with the payload, then every wildcard handler, in the order of the list, with
  the name and the payload; and the state it leaves is the one that these calls,
  made one after the other, leave. This holds whichever of the handlers raise. The
  list under a name is in the order of registration, since \<open>on_event\<close> appends.
\<close>

theorem handle_event_isolation:
  assumes "dict_get kvs (ustr ''event'') JNull = JStr name"
    and "name \<noteq> ustr ''connect.challenge''" and "name \<noteq> ustr ''tick''"
    and "\<forall>h \<in> set (registered (event_handlers c) name) \<union> set (registered (event_handlers c) (ustr ''*'')).
           tame (hs h) \<and> keeps (hs h) name \<and> keeps (hs h) (ustr ''*'')"
  shows "(\<exists>effects.
           handle_event hs (JObj kvs) c w =
             Some (None, effects,
               run_each hs (registered (event_handlers c) (ustr ''*'')) [JStr name, dict_get kvs (ustr ''payload'') JNull]
                 (run_each hs (registered (event_handlers c) name) [dict_get kvs (ustr ''payload'') JNull] (c, w))) \<and>
           filter is_invocation effects =
             map (\<lambda>h. Invoked h [dict_get kvs (ustr ''payload'') JNull]) (registered (event_handlers c) name) @
             map (\<lambda>h. Invoked h [JStr name, dict_get kvs (ustr ''payload'') JNull])
               (registered (event_handlers c) (ustr ''*''))) \<and>
         registered (event_handlers (on_event name g c)) name = registered (event_handlers c) name @ [g]"
proof -
  let ?payload = "dict_get kvs (ustr ''payload'') JNull"
  let ?named = "registered (event_handlers c) name"
  let ?all = "registered (event_handlers c) (ustr ''*'')"
  obtain c1 w1 where s1: "run_each hs ?named [?payload] (c, w) = (c1, w1)"
    by (cases "run_each hs ?named [?payload] (c, w)")
  obtain e1 where one: "run_handlers hs name [?payload] 0 [] c w = Some (None, e1, c1, w1)"
    "filter is_invocation e1 = map (\<lambda>h. Invoked h [?payload]) ?named"
    using run_handlers_all [of c name ?named 0 hs "[?payload]" "[]" w] assms(4) s1 by auto
  have "registered (event_handlers (fst (run_each hs ?named [?payload] (c, w)))) (ustr ''*'') = ?all"
    using run_each_keeps [of ?named hs "ustr ''*''" "[?payload]" c w] assms(4) by simp
  then have star: "registered (event_handlers c1) (ustr ''*'') = ?all" using s1 by simp
  obtain e2 where two: "run_handlers hs (ustr ''*'') [JStr name, ?payload] 0 e1 c1 w1 =
        Some (None, e1 @ e2, run_each hs ?all [JStr name, ?payload] (c1, w1))"
    "filter is_invocation e2 = map (\<lambda>h. Invoked h [JStr name, ?payload]) ?all"
    using run_handlers_all [of c1 "ustr ''*''" ?all 0 hs "[JStr name, ?payload]" e1 w1] assms(4) star by auto
  have "handle_event hs (JObj kvs) c w =
          Some (None, e1 @ e2, run_each hs ?all [JStr name, ?payload] (run_each hs ?named [?payload] (c, w)))"
    using assms(1,2,3) one(1) two(1) s1 by (simp add: handle_event_def Let_def)
  moreover have "registered (event_handlers (on_event name g c)) name = ?named @ [g]"
    by (simp add: on_event_def registered_def update_conv')
  ultimately show ?thesis using one(2) two(2) by simp
qed

lemma listening_lists:
  "registered (event_handlers listening_client) (ustr ''custom.thing'') = [1, 2]"
  "registered (event_handlers listening_client) (ustr ''*'') = [3]"
  by (simp_all add: listening_client_def on_event_def new_client_def registered_def)

theorem handle_event_isolation_witness:
  "handle_event flaky (JObj custom_event) listening_client 0 =
     Some (None, [Invoked 1 [JInt 7], Logged (Exception (JStr (ustr ''boom''))), Invoked 2 [JInt 7],
             Invoked 3 [JStr (ustr ''custom.thing''), JInt 7]], listening_client, 3)"
  using handle_event_isolation [of custom_event "ustr ''custom.thing''" listening_client flaky 0 2]
  by (simp add: custom_event_def dict_get_def listening_lists flaky_def tame_def keeps_def
        handle_event_def run_handlers.simps Let_def)

text \<open>
  The claim as it stands fails in two ways. The loop runs over the list of the
  registry itself: when a handler is taken out of the list while it is awaited (here
  by the \<open>finally\<close> block of its chat call), the handler behind it moves to its place
  and is never called. And \<open>except Exception\<close> does not catch a \<open>CancelledError\<close>: it
  leaves \<open>_handle_event\<close>, and the handlers behind are not called.
\<close>

theorem unregistering_counterexample:
  "registered (event_handlers two_calls_client) (ustr ''chat'') = [5, 6] \<and>
   handle_event leaving (JObj chat_frame) two_calls_client 0 =
     Some (None, [Invoked 5 [chat_event ''s1'' ''delta'' [text_item ''hel'']]],
           remove_chat_handler 5 two_calls_client, 1) \<and>
   handle_event cancelled (JObj custom_event) listening_client 0 =
     Some (Some CancelledError, [Invoked 1 [JInt 7]], listening_client, 1)"
proof -
  have l: "registered (event_handlers two_calls_client) (ustr ''chat'') = [5, 6]"
    "registered (event_handlers two_calls_client) (ustr ''*'') = []"
    "registered (event_handlers (remove_chat_handler 5 two_calls_client)) (ustr ''chat'') = [6]"
    "registered (event_handlers (remove_chat_handler 5 two_calls_client)) (ustr ''*'') = []"
    by (simp_all add: two_calls_client_def on_event_def agent_client_def new_client_def registered_def
          remove_chat_handler_def)
  have a: "handle_event leaving (JObj chat_frame) two_calls_client 0 =
     Some (None, [Invoked 5 [chat_event ''s1'' ''delta'' [text_item ''hel'']]],
           remove_chat_handler 5 two_calls_client, 1)"
    by (simp add: chat_frame_def dict_get_def handle_event_def run_handlers.simps l leaving_def Let_def)
  have b: "handle_event cancelled (JObj custom_event) listening_client 0 =
     Some (Some CancelledError, [Invoked 1 [JInt 7]], listening_client, 1)"
    by (simp add: custom_event_def dict_get_def handle_event_def run_handlers.simps listening_lists
          cancelled_def Let_def)
  from l(1) a b show ?thesis by simp
qed

section \<open>Chat streaming: the accumulated text\<close>

lemma texts_of_Nil [simp]: "texts_of [] = []"
  by (simp add: texts_of_def)

lemma texts_of_Cons:
  "texts_of (item # items) = (if is_text_item item then item_text item # texts_of items else texts_of items)"
  by (simp add: texts_of_def)

lemma is_str_JStr: "is_str v \<Longrightarrow> \<exists>t. v = JStr t"
  by (cases v) simp_all

lemma delta_items_ok:
  assumes "list_all item_ok items" "callback_ok on_delta"
  shows "delta_items on_delta items st =
           (None, st\<lparr>response_text := (if texts_of items = [] then response_text st else last (texts_of items)),
                     delivered := delivered st @ passed_on on_delta (texts_of items)\<rparr>)"
  using assms(1)
proof (induction items arbitrary: st)
  case Nil
  then show ?case by (simp add: passed_on_def split: option.splits)
next
  case (Cons item items)
  then have ok: "item_ok item" and items: "list_all item_ok items" by simp_all
  then obtain kvs where item: "item = JObj kvs" by (cases item) simp_all
  show ?case
  proof (cases "is_text_item item")
    case False
    then show ?thesis
      using item Cons.IH [OF items] by (simp add: texts_of_Cons is_text_item_def)
  next
    case True
    then obtain t where t: "item_text item = JStr t"
      using ok item is_str_JStr by auto
    have ty: "dict_get kvs (ustr ''type'') JNull = JStr (ustr ''text'')"
      using True item by (simp add: is_text_item_def)
    have tx: "dict_get kvs (ustr ''text'') (JStr []) = JStr t"
      using t item by (simp add: item_text_def)
    show ?thesis
    proof (cases on_delta)
      case None
      then show ?thesis
        using item ty tx t True Cons.IH [OF items]
        by (simp add: texts_of_Cons passed_on_def)
    next
      case (Some callback)
      then have cb: "case callback v of Some e \<Rightarrow> is_Exception e | None \<Rightarrow> True" for v
        using assms(2) by (simp add: callback_ok_def)
      show ?thesis
        using item ty tx t True Some Cons.IH [OF items] cb [of "JStr t"]
        by (cases "callback (JStr t)") (simp_all add: texts_of_Cons passed_on_def)
    qed
  qed
qed

lemma final_items_ok:
  assumes "list_all item_ok items"
  shows "final_items items st =
           (None, st\<lparr>response_text := (if texts_of items = [] then response_text st else last (texts_of items))\<rparr>)"
  using assms
proof (induction items arbitrary: st)
  case Nil
  then show ?case by simp
next
  case (Cons item items)
  then have ok: "item_ok item" and items: "list_all item_ok items" by simp_all
  then obtain kvs where item: "item = JObj kvs" by (cases item) simp_all
  show ?case
    using item Cons.IH [OF items]
    by (simp add: texts_of_Cons is_text_item_def item_text_def)
qed

lemma texts_of_strings:
  assumes "list_all item_ok items" "v \<in> set (texts_of items)"
  shows "\<exists>t. v = JStr t"
proof -
  from assms(2) obtain item where i: "item \<in> set items" "is_text_item item" "v = item_text item"
    by (auto simp: texts_of_def)
  with assms(1) have "item_ok item" by (simp add: list_all_iff)
  with i(2) obtain kvs where "item = JObj kvs" "is_str (item_text item)"
    by (cases item) simp_all
  with i(3) show ?thesis using is_str_JStr by simp
qed

text \<open>
  Claim C10. A \<open>delta\<close> event for the session of the call, with a message whose content
  is a list of well-formed items: the accumulated text becomes the text of the last
  item of type \<open>text\<close>, the empty string included, and \<open>on_delta\<close>, if given, is called
  with the texts that are not empty, in order, and with nothing else. So an item with
  the empty text overwrites the accumulated text and reaches no callback.
\<close>

theorem delta_overwrites_and_delivers:
  assumes "dict_get kvs (ustr ''sessionKey'') JNull = JStr session_key"
    and "dict_get kvs (ustr ''state'') JNull = JStr (ustr ''delta'')"
    and "dict_get kvs (ustr ''message'') JNull = JObj m" and "m \<noteq> []"
    and "dict_get m (ustr ''content'') (JList []) = JList items"
    and "list_all item_ok items" and "callback_ok on_delta"
  shows "handle_chat_event session_key on_delta (JObj kvs) st =
           (None, st\<lparr>response_text := (if texts_of items = [] then response_text st else last (texts_of items)),
                     delivered := delivered st @ passed_on on_delta (texts_of items)\<rparr>) \<and>
         (\<forall>v \<in> set (passed_on on_delta (texts_of items)). \<exists>t. v = JStr t \<and> t \<noteq> []) \<and>
         (texts_of items = [JStr []] \<longrightarrow>
            handle_chat_event session_key on_delta (JObj kvs) st = (None, st\<lparr>response_text := JStr []\<rparr>))"
proof -
  have run: "handle_chat_event session_key on_delta (JObj kvs) st =
           (None, st\<lparr>response_text := (if texts_of items = [] then response_text st else last (texts_of items)),
                     delivered := delivered st @ passed_on on_delta (texts_of items)\<rparr>)"
    using assms(1-5) delta_items_ok [OF assms(6,7)]
    by (simp add: handle_chat_event_def Let_def message_content_def)
  have "\<exists>t. v = JStr t \<and> t \<noteq> []" if "v \<in> set (passed_on on_delta (texts_of items))" for v
  proof -
    from that have "v \<in> set (texts_of items)" "truthy v"
      by (auto simp: passed_on_def split: option.splits)
    with texts_of_strings [OF assms(6)] show ?thesis by fastforce
  qed
  moreover have "handle_chat_event session_key on_delta (JObj kvs) st = (None, st\<lparr>response_text := JStr []\<rparr>)"
    if "texts_of items = [JStr []]"
    using run that by (simp add: passed_on_def split: option.splits)
  ultimately show ?thesis using run by blast
qed

lemma chat_fields_get:
  "dict_get (chat_fields s state content) (ustr ''sessionKey'') JNull = JStr (ustr s)"
  "dict_get (chat_fields s state content) (ustr ''state'') JNull = JStr (ustr state)"
  "dict_get (chat_fields s state content) (ustr ''message'') JNull = JObj (chat_message content)"
  "dict_get (chat_message content) (ustr ''content'') (JList []) = JList content"
  "chat_message content \<noteq> []"
  by (simp_all add: dict_get_def chat_fields_def chat_message_def)

lemma text_item_facts [simp]:
  "item_ok (text_item t)" "is_text_item (text_item t)" "item_text (text_item t) = JStr (ustr t)"
  by (simp_all add: text_item_def is_text_item_def item_text_def dict_get_def)

theorem delta_overwrites_and_delivers_witness:
  "handle_chat_event (ustr ''s1'') (Some (\<lambda>v. None))
     (chat_event ''s1'' ''delta'' [text_item []])
     (initial_chat_state\<lparr>response_text := JStr (ustr ''hel'')\<rparr>) =
   (None, initial_chat_state\<lparr>response_text := JStr []\<rparr>) \<and>
   handle_chat_event (ustr ''s1'') (Some (\<lambda>v. None))
     (chat_event ''s1'' ''delta'' [text_item ''hello''])
     (initial_chat_state\<lparr>response_text := JStr (ustr ''hel'')\<rparr>) =
   (None, initial_chat_state\<lparr>response_text := JStr (ustr ''hello''), delivered := [JStr (ustr ''hello'')]\<rparr>)"
proof -
  have cb: "callback_ok (Some (\<lambda>v. None))" by (simp add: callback_ok_def)
  have a: "handle_chat_event (ustr ''s1'') (Some (\<lambda>v. None))
     (chat_event ''s1'' ''delta'' [text_item []])
     (initial_chat_state\<lparr>response_text := JStr (ustr ''hel'')\<rparr>) =
   (None, initial_chat_state\<lparr>response_text := JStr []\<rparr>)"
    using delta_overwrites_and_delivers [OF chat_fields_get(1,2,3,5,4) _ cb,
      of "[text_item []]" "''s1''" "initial_chat_state\<lparr>response_text := JStr (ustr ''hel'')\<rparr>"]
    by (simp add: texts_of_def passed_on_def initial_chat_state_def chat_event_def ustr_def)
  have b: "handle_chat_event (ustr ''s1'') (Some (\<lambda>v. None))
     (chat_event ''s1'' ''delta'' [text_item ''hello''])
     (initial_chat_state\<lparr>response_text := JStr (ustr ''hel'')\<rparr>) =
   (None, initial_chat_state\<lparr>response_text := JStr (ustr ''hello''), delivered := [JStr (ustr ''hello'')]\<rparr>)"
    using delta_overwrites_and_delivers [OF chat_fields_get(1,2,3,5,4) _ cb,
      of "[text_item ''hello'']" "''s1''" "initial_chat_state\<lparr>response_text := JStr (ustr ''hel'')\<rparr>"]
    by (simp add: texts_of_def passed_on_def initial_chat_state_def chat_event_def)
  from a b show ?thesis by simp
qed

lemma delta_items_raises:
  "callback_ok on_delta \<Longrightarrow> delta_items on_delta items st = (Some e, st') \<Longrightarrow> is_Exception e"
proof (induction items arbitrary: st)
  case Nil
  then show ?case by simp
next
  case (Cons item items)
  show ?case
  proof (cases item)
    case (JObj kvs)
    show ?thesis
    proof (cases on_delta)
      case None
      with Cons JObj show ?thesis
        by (auto simp: Let_def split: if_splits)
    next
      case (Some callback)
      then have cb: "case callback v of Some e \<Rightarrow> is_Exception e | None \<Rightarrow> True" for v
        using Cons.prems(1) by (simp add: callback_ok_def)
      show ?thesis
        using Cons JObj Some cb [of "dict_get kvs (ustr ''text'') (JStr [])"]
        by (auto simp: Let_def split: if_splits option.splits)
    qed
  qed (use Cons.prems in auto)
qed

lemma final_items_raises:
  "final_items items st = (Some e, st') \<Longrightarrow> is_Exception e"
proof (induction items arbitrary: st)
  case Nil
  then show ?case by simp
next
  case (Cons item items)
  then show ?case by (cases item) (auto split: if_splits)
qed

lemma message_content_raises: "message_content msg = Inl e \<Longrightarrow> is_Exception e"
proof (cases msg)
  case (JObj m)
  assume "message_content msg = Inl e"
  with JObj show ?thesis
    by (cases "dict_get m (ustr ''content'') (JList [])") (auto simp: message_content_def)
qed (auto simp: message_content_def)

lemma handle_chat_event_raises:
  assumes "callback_ok on_delta" "handle_chat_event session_key on_delta payload st = (Some e, st')"
  shows "is_Exception e"
proof (cases payload)
  case (JObj kvs)
  with assms(2) show ?thesis
    by (auto simp: handle_chat_event_def Let_def
          split: if_splits sum.splits prod.splits option.splits
          dest: delta_items_raises [OF assms(1)] final_items_raises message_content_raises)
qed (use assms(2) in \<open>auto simp: handle_chat_event_def\<close>)

lemma chat_events_append:
  assumes "callback_ok on_delta"
  shows "chat_events session_key on_delta (xs @ ys) st =
           chat_events session_key on_delta ys (chat_events session_key on_delta xs st)"
proof (induction xs arbitrary: st)
  case Nil
  then show ?case by simp
next
  case (Cons x xs)
  obtain r st1 where h: "handle_chat_event session_key on_delta x st = (r, st1)"
    by (cases "handle_chat_event session_key on_delta x st")
  show ?case
  proof (cases r)
    case None
    with h Cons show ?thesis by simp
  next
    case (Some e)
    with h handle_chat_event_raises [OF assms] have "is_Exception e" by blast
    with h Some Cons show ?thesis by simp
  qed
qed

lemma final_event_ok:
  assumes "dict_get kvs (ustr ''sessionKey'') JNull = JStr session_key"
    and "dict_get kvs (ustr ''state'') JNull = JStr (ustr ''final'')"
    and "dict_get kvs (ustr ''message'') JNull = JObj m" and "m \<noteq> []"
    and "dict_get m (ustr ''content'') (JList []) = JList items"
    and "list_all item_ok items" and "texts_of items \<noteq> []"
  shows "handle_chat_event session_key on_delta (JObj kvs) st =
           (None, st\<lparr>response_text := last (texts_of items), response_complete := True\<rparr>)"
proof -
  have "last (texts_of items) \<in> set (texts_of items)" using assms(7) by simp
  then obtain t where "last (texts_of items) = JStr t"
    using texts_of_strings [OF assms(6)] by blast
  then show ?thesis
    using assms(1-5,7) final_items_ok [OF assms(6)]
    by (simp add: handle_chat_event_def Let_def message_content_def)
qed

lemma chat_send_fst:
  "fst (chat_send env session_key on_delta c) =
     fst (chat_try env session_key on_delta (on_event (ustr ''chat'') (handler_id env) c))"
  by (simp add: chat_send_def split: prod.splits)

lemma chat_try_acknowledged:
  assumes "fst (request (chat_request env) (ustr ''chat.send'') False c) = Inr result"
    and "\<not> reports_error result" and "wait_raises env = None"
  shows "fst (chat_try env session_key on_delta c) =
           (let st = chat_events session_key on_delta (chat_payloads env) initial_chat_state
            in if response_complete st then chat_result st else Inl TimeoutError)"
proof -
  obtain c1 where "request (chat_request env) (ustr ''chat.send'') False c = (Inr result, c1)"
    using assms(1) by (cases "request (chat_request env) (ustr ''chat.send'') False c") simp
  then show ?thesis
    using assms(2,3)
    by (cases result) (simp_all add: chat_try_def await_final_def reports_error_def Let_def)
qed

lemma chat_events_ignored:
  assumes "\<forall>p \<in> set later. \<not> for_session session_key p"
  shows "chat_events session_key on_delta later st = st"
  using assms
proof (induction later)
  case Nil
  then show ?case by simp
next
  case (Cons p later)
  then have "\<not> for_session session_key p" by simp
  then have "handle_chat_event session_key on_delta p st = (None, st) \<or>
             handle_chat_event session_key on_delta p st = (Some AttributeError, st)"
    by (cases p) (simp_all add: handle_chat_event_def for_session_def)
  with Cons show ?case by auto
qed

text \<open>
  Claim C2, as amended. A \<open>delta\<close> or \<open>final\<close> event for the session of the call, with a
  message whose content is a list of well-formed items of which one or more are of
  type \<open>text\<close>, and a callback that raises nothing but instances of \<open>Exception\<close>: the
  handler raises nothing, and the accumulated text becomes the text of the last such
  item, whatever it was before; the texts of several items are not joined. When such
  a \<open>final\<close> event is the last event for the session of the call that reaches the
  handler before the call goes on, no \<open>error\<close> or \<open>aborted\<close> event has set an error
  before it, the request was acknowledged without an error status and nothing is
  thrown into the wait, the call returns that text stripped, or \<open>None\<close> when the text
  is empty.
\<close>

theorem last_text_replaces:
  assumes "dict_get kvs (ustr ''sessionKey'') JNull = JStr session_key"
    and "dict_get kvs (ustr ''state'') JNull = JStr state"
    and "state = ustr ''delta'' \<or> state = ustr ''final''"
    and "dict_get kvs (ustr ''message'') JNull = JObj m" and "m \<noteq> []"
    and "dict_get m (ustr ''content'') (JList []) = JList items"
    and "list_all item_ok items" and "texts_of items \<noteq> []"
    and "callback_ok on_delta"
  shows "fst (handle_chat_event session_key on_delta (JObj kvs) st) = None \<and>
         response_text (snd (handle_chat_event session_key on_delta (JObj kvs) st)) = last (texts_of items) \<and>
         (state = ustr ''final'' \<longrightarrow>
            (\<forall>env c earlier later result t.
               chat_payloads env = earlier @ [JObj kvs] @ later \<and>
               (\<forall>p \<in> set later. \<not> for_session session_key p) \<and>
               response_error (chat_events session_key on_delta earlier initial_chat_state) = None \<and>
               fst (request (chat_request env) (ustr ''chat.send'') False
                      (on_event (ustr ''chat'') (handler_id env) c)) = Inr result \<and>
               \<not> reports_error result \<and> wait_raises env = None \<and>
               last (texts_of items) = JStr t \<longrightarrow>
               fst (chat_send env session_key on_delta c) = Inr (if t = [] then JNull else JStr (strip t))))"
proof -
  have handler: "fst (handle_chat_event session_key on_delta (JObj kvs) st) = None \<and>
         response_text (snd (handle_chat_event session_key on_delta (JObj kvs) st)) = last (texts_of items)"
  proof (cases "state = ustr ''delta''")
    case True
    then show ?thesis
      using assms(1,2,4,5,6,8) delta_items_ok [OF assms(7,9)]
      by (simp add: handle_chat_event_def Let_def message_content_def)
  next
    case False
    with assms(3) have "state = ustr ''final''" by simp
    then show ?thesis
      using final_event_ok [OF assms(1) _ assms(4-8)] assms(2) by simp
  qed
  have call: "fst (chat_send env session_key on_delta c) = Inr (if t = [] then JNull else JStr (strip t))"
    if "state = ustr ''final''" and p: "chat_payloads env = earlier @ [JObj kvs] @ later"
      and l: "\<forall>p \<in> set later. \<not> for_session session_key p"
      and e: "response_error (chat_events session_key on_delta earlier initial_chat_state) = None"
      and r: "fst (request (chat_request env) (ustr ''chat.send'') False
                      (on_event (ustr ''chat'') (handler_id env) c)) = Inr result"
         "\<not> reports_error result" "wait_raises env = None"
      and t: "last (texts_of items) = JStr t"
    for env c earlier later result t
  proof -
    let ?st = "chat_events session_key on_delta earlier initial_chat_state"
    have "handle_chat_event session_key on_delta (JObj kvs) ?st =
           (None, ?st\<lparr>response_text := JStr t, response_complete := True\<rparr>)"
      using final_event_ok [OF assms(1) _ assms(4-8)] assms(2) that(1) t by simp
    then have "chat_events session_key on_delta (earlier @ [JObj kvs]) initial_chat_state =
           ?st\<lparr>response_text := JStr t, response_complete := True\<rparr>"
      using chat_events_append [OF assms(9)] by simp
    then have "chat_events session_key on_delta (chat_payloads env) initial_chat_state =
           ?st\<lparr>response_text := JStr t, response_complete := True\<rparr>"
      using p chat_events_append [OF assms(9), of session_key "earlier @ [JObj kvs]" later]
        chat_events_ignored [OF l] by simp
    then show ?thesis
      using e chat_try_acknowledged [OF r]
      by (simp add: chat_send_fst chat_result_def)
  qed
  show ?thesis using handler call by blast
qed

lemma hello_request:
  "request (chat_request hello_call) (ustr ''chat.send'') False (on_event (ustr ''chat'') 5 agent_client) =
     (Inr (JObj [(ustr ''runId'', JStr (ustr ''run-1'')), (ustr ''status'', JStr (ustr ''started''))]),
      (on_event (ustr ''chat'') 5 agent_client)
        \<lparr>futures := (futures agent_client)
           (9 := Result (JObj [(ustr ''runId'', JStr (ustr ''run-1'')), (ustr ''status'', JStr (ustr ''started''))]))\<rparr>)"
  by (simp add: request_def hello_call_def chat_ack_def handle_response_def complete_request_def
        set_result_def status_accepted_def dict_get_def on_event_def agent_client_def new_client_def
        forget_def Let_def AList.delete_eq)

lemma strip_hello: "strip (ustr ''hello '') = ustr ''hello''"
  by (simp add: strip_def is_space_def ustr_def)

lemma crowded_request:
  "fst (request (chat_request crowded_call) (ustr ''chat.send'') False
       (on_event (ustr ''chat'') (handler_id crowded_call) agent_client)) =
     Inr (JObj [(ustr ''runId'', JStr (ustr ''run-1'')), (ustr ''status'', JStr (ustr ''started''))])"
  using hello_request by (simp add: crowded_call_def hello_call_def)

theorem last_text_replaces_witness:
  "fst (chat_send crowded_call (ustr ''s1'') None agent_client) = Inr (JStr (ustr ''hello'')) \<and>
   response_text (snd (handle_chat_event (ustr ''s1'') None
      (chat_event ''s1'' ''final'' [text_item ''hello '']) initial_chat_state)) = JStr (ustr ''hello '')"
proof -
  have cb: "callback_ok None" by (simp add: callback_ok_def)
  have items: "list_all item_ok [text_item ''hello '']" "texts_of [text_item ''hello ''] \<noteq> []"
    by (simp_all add: texts_of_def)
  note t = last_text_replaces [OF chat_fields_get(1,2) _ chat_fields_get(3,5,4) items cb,
      of "''final''" "''s1''" initial_chat_state]
  have payloads: "chat_payloads crowded_call =
      [chat_event ''s2'' ''delta'' [text_item ''other''], chat_event ''s2'' ''final'' [text_item ''other''],
       chat_event ''s1'' ''delta'' [text_item ''hel'']] @ [JObj (chat_fields ''s1'' ''final'' [text_item ''hello ''])]
       @ [chat_event ''s2'' ''delta'' [text_item ''more'']]"
    by (simp add: crowded_call_def hello_call_def chat_event_def)
  have later: "\<forall>p \<in> set [chat_event ''s2'' ''delta'' [text_item ''more'']]. \<not> for_session (ustr ''s1'') p"
    by (simp add: for_session_def chat_event_def chat_fields_get)
  have quiet: "response_error (chat_events (ustr ''s1'') None
      [chat_event ''s2'' ''delta'' [text_item ''other''], chat_event ''s2'' ''final'' [text_item ''other''],
       chat_event ''s1'' ''delta'' [text_item ''hel'']] initial_chat_state) = None"
    by (simp add: chat_event_def chat_fields_def chat_message_def handle_chat_event_def dict_get_def
          message_content_def text_item_def initial_chat_state_def Let_def)
  have fine: "\<not> reports_error (JObj [(ustr ''runId'', JStr (ustr ''run-1'')), (ustr ''status'', JStr (ustr ''started''))])"
    by (simp add: reports_error_def dict_get_def)
  have quiet_wait: "wait_raises crowded_call = None"
    by (simp add: crowded_call_def hello_call_def)
  have lt: "last (texts_of [text_item ''hello '']) = JStr (ustr ''hello '')"
    by (simp add: texts_of_def)
  from t have "\<forall>env c earlier later result t.
      chat_payloads env = earlier @ [JObj (chat_fields ''s1'' ''final'' [text_item ''hello ''])] @ later \<and>
      (\<forall>p \<in> set later. \<not> for_session (ustr ''s1'') p) \<and>
      response_error (chat_events (ustr ''s1'') None earlier initial_chat_state) = None \<and>
      fst (request (chat_request env) (ustr ''chat.send'') False
             (on_event (ustr ''chat'') (handler_id env) c)) = Inr result \<and>
      \<not> reports_error result \<and> wait_raises env = None \<and>
      last (texts_of [text_item ''hello '']) = JStr t \<longrightarrow>
      fst (chat_send env (ustr ''s1'') None c) = Inr (if t = [] then JNull else JStr (strip t))"
    by blast
  then have "fst (chat_send crowded_call (ustr ''s1'') None agent_client) =
          Inr (if ustr ''hello '' = [] then JNull else JStr (strip (ustr ''hello '')))"
    using payloads later quiet crowded_request fine quiet_wait lt by blast
  then show ?thesis using t by (simp add: strip_hello texts_of_def chat_event_def)
qed

lemma overtaken_request:
  "fst (request (chat_request overtaken_call) (ustr ''chat.send'') False
       (on_event (ustr ''chat'') 5 agent_client)) =
     Inr (JObj [(ustr ''runId'', JStr (ustr ''run-1'')), (ustr ''status'', JStr (ustr ''started''))])"
  using hello_request by (simp add: overtaken_call_def)

text \<open>
  The claim as it stands fails on a content list with two items of type \<open>text\<close>: the
  accumulated text is the text of the second, not the two joined. And the text of
  the last \<open>final\<close> event is not what the call returns when a \<open>delta\<close> event for the
  session reaches the handler behind it, before the call goes on.
\<close>

theorem two_texts_counterexample:
  "texts_of [text_item ''a'', text_item ''b''] = [JStr (ustr ''a''), JStr (ustr ''b'')] \<and>
   handle_chat_event (ustr ''s1'') None two_texts initial_chat_state =
     (None, initial_chat_state\<lparr>response_text := JStr (ustr ''b''), response_complete := True\<rparr>) \<and>
   JStr (ustr ''b'') \<noteq> JStr (ustr ''a'' @ ustr ''b'') \<and>
   fst (chat_send overtaken_call (ustr ''s1'') None agent_client) = Inr (JStr (ustr ''x''))"
proof -
  have a: "texts_of [text_item ''a'', text_item ''b''] = [JStr (ustr ''a''), JStr (ustr ''b'')] \<and>
   handle_chat_event (ustr ''s1'') None two_texts initial_chat_state =
     (None, initial_chat_state\<lparr>response_text := JStr (ustr ''b''), response_complete := True\<rparr>) \<and>
   JStr (ustr ''b'') \<noteq> JStr (ustr ''a'' @ ustr ''b'')"
    by (simp add: two_texts_def chat_event_def chat_fields_def chat_message_def handle_chat_event_def
        dict_get_def message_content_def text_item_def texts_of_def is_text_item_def item_text_def
        Let_def initial_chat_state_def ustr_def)
  have fine: "\<not> reports_error (JObj [(ustr ''runId'', JStr (ustr ''run-1'')), (ustr ''status'', JStr (ustr ''started''))])"
    by (simp add: reports_error_def dict_get_def)
  have quiet: "wait_raises overtaken_call = None"
    by (simp add: overtaken_call_def hello_call_def)
  have acc: "chat_events (ustr ''s1'') None (chat_payloads overtaken_call) initial_chat_state =
     initial_chat_state\<lparr>response_text := JStr (ustr ''x''), response_complete := True\<rparr>"
    by (simp add: overtaken_call_def chat_event_def chat_fields_def chat_message_def
          handle_chat_event_def dict_get_def message_content_def text_item_def Let_def
          initial_chat_state_def)
  have "fst (chat_try overtaken_call (ustr ''s1'') None (on_event (ustr ''chat'') 5 agent_client)) =
          chat_result (initial_chat_state\<lparr>response_text := JStr (ustr ''x''), response_complete := True\<rparr>)"
    using chat_try_acknowledged [OF overtaken_request fine quiet, of "ustr ''s1''" None]
    by (simp only: acc Let_def) simp
  then have b: "fst (chat_send overtaken_call (ustr ''s1'') None agent_client) = Inr (JStr (ustr ''x''))"
    by (simp add: chat_send_fst chat_result_def overtaken_call_def hello_call_def initial_chat_state_def
          strip_def is_space_def ustr_def)
  from a b show ?thesis by simp
qed

section \<open>Chat streaming: the value returned\<close>

lemma strip_blank:
  assumes "\<forall>ch \<in> set s. is_space ch"
  shows "strip s = []"
proof -
  have "dropWhile is_space s = []" using assms by simp
  then show ?thesis unfolding strip_def by (simp only: rev.simps dropWhile.simps)
qed

lemma chat_try_success:
  assumes "fst (chat_try env session_key on_delta c) = Inr v"
  shows "chat_result (chat_events session_key on_delta (chat_payloads env) initial_chat_state) = Inr v"
proof -
  obtain r c1 where req: "request (chat_request env) (ustr ''chat.send'') False c = (r, c1)"
    by (cases "request (chat_request env) (ustr ''chat.send'') False c")
  have wait: "fst (await_final env session_key on_delta c1) = Inr v \<Longrightarrow> ?thesis"
    by (auto simp: await_final_def Let_def split: option.splits if_splits)
  show ?thesis
  proof (cases r)
    case (Inl e)
    with req assms show ?thesis by (simp add: chat_try_def)
  next
    case (Inr result)
    with req assms wait show ?thesis
      by (cases result) (auto simp: chat_try_def split: if_splits)
  qed
qed

text \<open>
  Claim C9. When \<open>chat_send\<close> returns a value and the accumulated text is a string:
  the value is \<open>None\<close> exactly when that string is empty; otherwise it is the string
  stripped, which for a string of nothing but whitespace is the empty string and not
  \<open>None\<close>.
\<close>

theorem chat_send_none_iff_empty:
  assumes "fst (chat_send env session_key on_delta c) = Inr v"
    and "response_text (chat_events session_key on_delta (chat_payloads env) initial_chat_state) = JStr s"
  shows "(v = JNull \<longleftrightarrow> s = []) \<and> (s \<noteq> [] \<longrightarrow> v = JStr (strip s)) \<and>
         (s \<noteq> [] \<and> (\<forall>ch \<in> set s. is_space ch) \<longrightarrow> v = JStr [] \<and> v \<noteq> JNull)"
proof -
  have "chat_result (chat_events session_key on_delta (chat_payloads env) initial_chat_state) = Inr v"
    using assms(1) chat_try_success by (simp add: chat_send_fst)
  then have v: "v = (if s = [] then JNull else JStr (strip s))"
    using assms(2) by (auto simp: chat_result_def split: option.splits if_splits)
  then show ?thesis using strip_blank [of s] by auto
qed

lemma blank_request:
  "fst (request (chat_request blank_call) (ustr ''chat.send'') False (on_event (ustr ''chat'') 5 agent_client)) =
     Inr (JObj [(ustr ''runId'', JStr (ustr ''run-1'')), (ustr ''status'', JStr (ustr ''started''))])"
  using hello_request by (simp add: blank_call_def)

theorem chat_send_none_iff_empty_witness:
  "fst (chat_send blank_call (ustr ''s1'') None agent_client) = Inr (JStr []) \<and>
   response_text (chat_events (ustr ''s1'') None (chat_payloads blank_call) initial_chat_state) = JStr (ustr ''  '') \<and>
   strip (ustr ''  '') = []"
proof -
  have acc: "chat_events (ustr ''s1'') None (chat_payloads blank_call) initial_chat_state =
     initial_chat_state\<lparr>response_text := JStr (ustr ''  ''), response_complete := True\<rparr>"
    by (simp add: blank_call_def hello_call_def chat_event_def chat_fields_def chat_message_def
          handle_chat_event_def dict_get_def message_content_def text_item_def Let_def
          initial_chat_state_def)
  have fine: "\<not> reports_error (JObj [(ustr ''runId'', JStr (ustr ''run-1'')), (ustr ''status'', JStr (ustr ''started''))])"
    by (simp add: reports_error_def dict_get_def)
  have quiet: "wait_raises blank_call = None"
    by (simp add: blank_call_def hello_call_def)
  have "fst (chat_try blank_call (ustr ''s1'') None (on_event (ustr ''chat'') 5 agent_client)) =
          chat_result (initial_chat_state\<lparr>response_text := JStr (ustr ''  ''), response_complete := True\<rparr>)"
    using chat_try_acknowledged [OF blank_request fine quiet, of "ustr ''s1''" None]
    by (simp only: acc Let_def) simp
  then have run: "fst (chat_send blank_call (ustr ''s1'') None agent_client) = Inr (JStr [])"
    by (simp add: chat_send_fst chat_result_def blank_call_def hello_call_def initial_chat_state_def
          strip_def is_space_def ustr_def)
  have accumulated: "response_text (chat_events (ustr ''s1'') None (chat_payloads blank_call) initial_chat_state) = JStr (ustr ''  '')"
    by (simp add: acc)
  from chat_send_none_iff_empty [OF run accumulated] show ?thesis
    using run accumulated by (simp add: ustr_def is_space_def)
qed

section \<open>Chat streaming: the temporary handler\<close>

lemma request_chat_count:
  assumes "\<forall>c'. chat_count h (while_waiting env c') \<le> chat_count h c'"
  shows "chat_count h (snd (request env method_name ef c)) \<le> chat_count h c"
proof -
  let ?c1 = "c\<lparr>futures := (futures c)(new_future env := Unfilled),
               pending := AList.update (request_id env)
                 \<lparr>future = new_future env, expect_final = ef\<rparr> (pending c)\<rparr>"
  have start: "chat_count h ?c1 = chat_count h c" by (simp add: chat_count_def)
  have wait: "chat_count h (while_waiting env ?c1) \<le> chat_count h c"
    using assms start by metis
  have forget: "chat_count h (forget k c') = chat_count h c'" for k c'
    by (simp add: chat_count_def forget_def)
  have cancel: "chat_count h (c'\<lparr>futures := fs\<rparr>) = chat_count h c'" for c' fs
    by (simp add: chat_count_def)
  show ?thesis
    using start wait
    by (auto simp: request_def Let_def forget cancel split: option.splits py_future.splits)
qed

lemma await_final_chat_count:
  assumes "\<forall>c'. chat_count h (while_streaming env c') \<le> chat_count h c'"
  shows "chat_count h (snd (await_final env session_key on_delta c)) \<le> chat_count h c"
  using assms by (auto simp: await_final_def Let_def split: option.splits)

lemma chat_try_chat_count:
  assumes "\<forall>c'. chat_count h (while_waiting (chat_request env) c') \<le> chat_count h c'"
    and "\<forall>c'. chat_count h (while_streaming env c') \<le> chat_count h c'"
  shows "chat_count h (snd (chat_try env session_key on_delta c)) \<le> chat_count h c"
proof -
  obtain r c1 where req: "request (chat_request env) (ustr ''chat.send'') False c = (r, c1)"
    by (cases "request (chat_request env) (ustr ''chat.send'') False c")
  then have one: "chat_count h c1 \<le> chat_count h c"
    using request_chat_count [OF assms(1), of "ustr ''chat.send''" False c] by simp
  have two: "chat_count h (snd (await_final env session_key on_delta c1)) \<le> chat_count h c"
    using await_final_chat_count [OF assms(2), of session_key on_delta c1] one by simp
  show ?thesis
  proof (cases r)
    case (Inl e)
    with req one show ?thesis by (simp add: chat_try_def)
  next
    case (Inr result)
    with req one two show ?thesis
      by (cases result) (simp_all add: chat_try_def)
  qed
qed

lemma on_event_chat_count:
  "chat_count h (on_event (ustr ''chat'') h c) = Suc (chat_count h c)"
  by (simp add: chat_count_def on_event_def registered_def update_conv')

lemma remove1_last_occurrence: "count_list xs x \<le> 1 \<Longrightarrow> x \<notin> set (remove1 x xs)"
  by (induction xs) (auto simp: count_list_0_iff split: if_splits)

lemma remove_chat_handler_gone:
  assumes "chat_count h c \<le> 1"
  shows "h \<notin> set (registered (event_handlers (remove_chat_handler h c)) (ustr ''chat''))"
proof (cases "map_of (event_handlers c) (ustr ''chat'')")
  case None
  then show ?thesis by (simp add: remove_chat_handler_def registered_def)
next
  case (Some handlers)
  with assms have "count_list handlers h \<le> 1" by (simp add: chat_count_def registered_def)
  then have "h \<notin> set (remove1 h handlers)" by (rule remove1_last_occurrence)
  with Some show ?thesis
    by (simp add: remove_chat_handler_def registered_def update_conv')
qed

text \<open>
  Claim C5. Let the handler of the call be new (not in the list under \<open>chat\<close>
  when the call starts), and let no other task put it there while the call waits.
  Then the handler is in the list once \<open>on_event\<close> has run, and it is not in the list
  when \<open>chat_send\<close> is left, whatever the way out: a value returned, an error status in
  the acknowledgment, an \<open>error\<close> or \<open>aborted\<close> event, a timeout of the request or of
  the wait, or any other exception.
\<close>

theorem chat_handler_removed:
  assumes "handler_id env \<notin> set (registered (event_handlers c) (ustr ''chat''))"
    and "\<forall>c'. chat_count (handler_id env) (while_waiting (chat_request env) c') \<le> chat_count (handler_id env) c'"
    and "\<forall>c'. chat_count (handler_id env) (while_streaming env c') \<le> chat_count (handler_id env) c'"
  shows "handler_id env \<in> set (registered (event_handlers (on_event (ustr ''chat'') (handler_id env) c)) (ustr ''chat'')) \<and>
         handler_id env \<notin> set (registered (event_handlers (snd (chat_send env session_key on_delta c))) (ustr ''chat''))"
proof -
  let ?h = "handler_id env"
  let ?c0 = "on_event (ustr ''chat'') ?h c"
  have "chat_count ?h c = 0" using assms(1) by (simp add: chat_count_def count_list_0_iff)
  then have "chat_count ?h ?c0 = 1" by (simp add: on_event_chat_count)
  then have "chat_count ?h (snd (chat_try env session_key on_delta ?c0)) \<le> 1"
    using chat_try_chat_count [OF assms(2,3), of session_key on_delta ?c0] by simp
  then have "?h \<notin> set (registered (event_handlers
      (remove_chat_handler ?h (snd (chat_try env session_key on_delta ?c0)))) (ustr ''chat''))"
    by (rule remove_chat_handler_gone)
  moreover have "snd (chat_send env session_key on_delta c) =
      remove_chat_handler ?h (snd (chat_try env session_key on_delta ?c0))"
    by (simp add: chat_send_def split: prod.splits)
  moreover have "?h \<in> set (registered (event_handlers ?c0) (ustr ''chat''))"
    by (simp add: on_event_def registered_def update_conv')
  ultimately show ?thesis by simp
qed

lemma handle_response_registry:
  "event_handlers (snd (handle_response r c)) = event_handlers c"
  by (auto simp: handle_response_def complete_request_def set_result_def set_exception_def Let_def
        split: sum.splits json.splits option.splits)

theorem chat_handler_removed_witness:
  "registered (event_handlers (on_event (ustr ''chat'') 5 agent_client)) (ustr ''chat'') = [5] \<and>
   fst (chat_send hello_call (ustr ''s1'') None agent_client) = Inr (JStr (ustr ''hello'')) \<and>
   5 \<notin> set (registered (event_handlers (snd (chat_send hello_call (ustr ''s1'') None agent_client))) (ustr ''chat'')) \<and>
   fst (chat_send unanswered_call (ustr ''s1'') None agent_client) =
     Inl (ExceptionF request_timed_out (JStr (ustr ''chat.send''))) \<and>
   5 \<notin> set (registered (event_handlers (snd (chat_send unanswered_call (ustr ''s1'') None agent_client))) (ustr ''chat''))"
proof -
  have new: "handler_id hello_call \<notin> set (registered (event_handlers agent_client) (ustr ''chat''))"
    "handler_id unanswered_call \<notin> set (registered (event_handlers agent_client) (ustr ''chat''))"
    by (simp_all add: agent_client_def new_client_def registered_def)
  have w1: "\<forall>c'. chat_count (handler_id hello_call) (while_waiting (chat_request hello_call) c')
              \<le> chat_count (handler_id hello_call) c'"
    by (simp add: hello_call_def chat_count_def handle_response_registry)
  have w2: "\<forall>c'. chat_count (handler_id unanswered_call) (while_waiting (chat_request unanswered_call) c')
              \<le> chat_count (handler_id unanswered_call) c'"
    by (simp add: unanswered_call_def hello_call_def)
  have s1: "\<forall>c'. chat_count (handler_id hello_call) (while_streaming hello_call c')
              \<le> chat_count (handler_id hello_call) c'"
    by (simp add: hello_call_def)
  have s2: "\<forall>c'. chat_count (handler_id unanswered_call) (while_streaming unanswered_call c')
              \<le> chat_count (handler_id unanswered_call) c'"
    by (simp add: unanswered_call_def hello_call_def)
  have h: "handler_id hello_call = 5" "handler_id unanswered_call = 5"
    by (simp_all add: unanswered_call_def hello_call_def)
  have hello: "fst (chat_send hello_call (ustr ''s1'') None agent_client) = Inr (JStr (ustr ''hello''))"
  proof -
    have fine: "\<not> reports_error (JObj [(ustr ''runId'', JStr (ustr ''run-1'')), (ustr ''status'', JStr (ustr ''started''))])"
      by (simp add: reports_error_def dict_get_def)
    have quiet: "wait_raises hello_call = None" by (simp add: hello_call_def)
    have req: "fst (request (chat_request hello_call) (ustr ''chat.send'') False
        (on_event (ustr ''chat'') 5 agent_client)) =
        Inr (JObj [(ustr ''runId'', JStr (ustr ''run-1'')), (ustr ''status'', JStr (ustr ''started''))])"
      by (simp add: hello_request)
    have acc: "chat_events (ustr ''s1'') None (chat_payloads hello_call) initial_chat_state =
       initial_chat_state\<lparr>response_text := JStr (ustr ''hello ''), response_complete := True\<rparr>"
      by (simp add: hello_call_def chat_event_def chat_fields_def chat_message_def
            handle_chat_event_def dict_get_def message_content_def text_item_def Let_def
            initial_chat_state_def)
    have "fst (chat_try hello_call (ustr ''s1'') None (on_event (ustr ''chat'') 5 agent_client)) =
          chat_result (initial_chat_state\<lparr>response_text := JStr (ustr ''hello ''), response_complete := True\<rparr>)"
      using chat_try_acknowledged [OF req fine quiet, of "ustr ''s1''" None]
      by (simp only: acc Let_def) simp
    then show ?thesis
      by (simp add: chat_send_fst chat_result_def hello_call_def initial_chat_state_def strip_hello)
  qed
  have silent: "fst (chat_send unanswered_call (ustr ''s1'') None agent_client) =
     Inl (ExceptionF request_timed_out (JStr (ustr ''chat.send'')))"
    by (simp add: chat_send_fst chat_try_def request_def unanswered_call_def hello_call_def
          on_event_def agent_client_def new_client_def forget_def Let_def)
  show ?thesis
    using chat_handler_removed [OF new(1) w1 s1, of "ustr ''s1''" None]
      chat_handler_removed [OF new(2) w2 s2, of "ustr ''s1''" None] hello silent h
    by (simp add: on_event_def registered_def agent_client_def new_client_def)
qed

end
